theory Spec2Isabelle
  imports Main
begin

section \<open>Data model of the auto-reply daemon\<close>

text \<open>
  The daemon of \<^verbatim>\<open>main.py\<close> talks to four collaborators: the mail gateway, the text
  generator, the file system and the operating system's signals. Their behaviour is the
  input of the model: every call into one of them takes its outcome from an environment
  record, and an outcome is either an exception or a value. All Python exceptions are
  kept apart only as far as the code keeps them apart: \<^verbatim>\<open>KeyboardInterrupt\<close> (which
  \<^verbatim>\<open>except Exception\<close> does not catch) and every other exception, with its message.
  Strings are lists of 8-bit characters, read as code points below 256.
\<close>

datatype exn = KeyboardInterrupt | Exception string

text \<open>
  A persona is the dictionary that \<^verbatim>\<open>json.load\<close> returns; the code reads its four keys
  with \<^verbatim>\<open>get\<close>, so each key may be absent.
\<close>

record character =
  name :: "string option"
  style :: "string option"
  randomFacts :: "string list option"
  quirks :: "string list option"

record mail =
  mail_to :: string
  mail_subject :: string
  mail_from :: string
  mail_body :: string

text \<open>
  Everything the process does to the outside is written to a trace, in order: log lines,
  console lines, messages handed to the gateway with success, rows written to the ledger
  file with success, and calls of \<^verbatim>\<open>time.sleep\<close> with their duration in seconds.
\<close>

datatype event =
    LogStarting
  | PrintStarted bool
  | LogNoCharacters
  | LogChecked
  | LogOllamaError exn
  | Sent mail
  | WroteHeader
  | WroteRow "string list"
  | LogReplied string "string option" bool
  | PrintReplied string "string option" bool
  | Sleep nat
  | LogRuntimeError exn
  | PrintStopping
  | LogShutdownRequested
  | LogStopped
  | PrintStopped

text \<open>
  The file at \<^verbatim>\<open>REPLIED_SENDERS_PATH\<close>: absent, or the rows that \<^verbatim>\<open>csv.reader\<close>
  yields for it (a blank line is the empty row) together with a mark that says whether
  its last line lacks the line terminator. The file may have been left by an earlier
  process, by an editor or by an interrupted write, so any rows and either mark can
  occur.
\<close>

type_synonym csv_file = "(string list list \<times> bool) option"

text \<open>
  The mutable state: the global flag \<^verbatim>\<open>shutdown_requested\<close>, the set
  \<^verbatim>\<open>replied_senders\<close> of \<^verbatim>\<open>main\<close>, the ledger file and the trace.
\<close>

record state =
  shutdown_requested :: bool
  replied_senders :: "string set"
  replied_senders_csv :: csv_file
  trace :: "event list"

text \<open>The values that \<^verbatim>\<open>main\<close> fixes before its loop and never changes.\<close>

record run_config =
  reply_once :: bool
  check_interval :: int
  my_email :: string
  characters :: "character list"
  fallback_message :: string
  parseaddr :: "string \<Rightarrow> string"

text \<open>
  A signal may arrive while the process is inside any blocking call. The environment
  says during which calls of one candidate's processing a signal is delivered.
\<close>

datatype sigpoint = DuringFetch | DuringGenerate | DuringSend | DuringRecord

text \<open>
  The environment of one candidate: the outcome of fetching the message (its headers),
  the random draw of \<^verbatim>\<open>choice\<close>, the outcome of the completion call (the content of
  the first choice), the outcome of the gateway's send, the outcome of appending to the
  ledger file (success, or an exception together with the file as the failed write left
  it), the clock reading used for the ledger row, and the signals delivered meanwhile.
\<close>

record msg_env =
  m_fetch :: "exn + (string \<times> string) list"
  m_draw :: nat
  m_completion :: "exn + string"
  m_send :: "exn + unit"
  m_write :: "exn \<times> csv_file + unit"
  m_now :: string
  m_signals :: "sigpoint list"

text \<open>
  The environment of one iteration of the \<^verbatim>\<open>while\<close> loop: the outcome of the listing
  query (\<open>None\<close> when the result has no \<^verbatim>\<open>messages\<close> key), whether a signal arrives
  during the query, during the \<open>k\<close>-th one-second sleep, and during the five-second
  sleep of the error handler.
\<close>

record iter_env =
  i_results :: "exn + msg_env list option"
  i_sig_poll :: bool
  i_ticks :: "bool list"
  i_sig_err :: bool

text \<open>
  The environment of start-up: the outcome of authentication (the mailbox address), the
  persona directory (absent, or its entries in \<^verbatim>\<open>os.listdir\<close> order, each with the
  outcome of opening and parsing it) and \<^verbatim>\<open>reply.json\<close> (absent, or the outcome of
  parsing it, with the \<^verbatim>\<open>message\<close> key possibly missing).
\<close>

record startup_env =
  s_auth :: "exn + string"
  s_characters_dir :: "(string \<times> (exn + character)) list option"
  s_reply_json :: "(exn + string option) option"

section \<open>The functions of main.py\<close>

definition emit :: "event \<Rightarrow> state \<Rightarrow> state" where
  "emit e s = s\<lparr>trace := trace s @ [e]\<rparr>"

definition graceful_shutdown :: "state \<Rightarrow> state" where
  "graceful_shutdown s =
     (if \<not> shutdown_requested s
      then (emit LogShutdownRequested (emit PrintStopping s))\<lparr>shutdown_requested := True\<rparr>
      else s)"

text \<open>Delivery of a signal, when one arrives: the handler runs, the interrupted call resumes.\<close>

definition deliver :: "bool \<Rightarrow> state \<Rightarrow> state" where
  "deliver b s = (if b then graceful_shutdown s else s)"

definition get_unread_messages ::
  "exn + 'm list option \<Rightarrow> state \<Rightarrow> (exn + 'm list) \<times> state" where
  "get_unread_messages results s =
     (case results of
        Inl e \<Rightarrow> (Inl e, s)
      | Inr r \<Rightarrow> (Inr (case r of None \<Rightarrow> [] | Some ms \<Rightarrow> ms), emit LogChecked s))"

text \<open>
  \<^verbatim>\<open>str.lower\<close> on the ASCII letters. The result is only compared with a word of
  ASCII letters, which no other character below 256 lowers to.
\<close>

definition lower_char :: "char \<Rightarrow> char" where
  "lower_char c =
     (let n = (of_char c :: nat) in if 65 \<le> n \<and> n \<le> 90 then char_of (n + 32) else c)"

fun get_sender :: "(string \<Rightarrow> string) \<Rightarrow> (string \<times> string) list \<Rightarrow> string option" where
  "get_sender pa [] = None"
| "get_sender pa ((n, v) # headers) =
     (if map lower_char n = ''from'' then Some (pa v) else get_sender pa headers)"

definition load_replied_senders :: "csv_file \<Rightarrow> string set" where
  "load_replied_senders f =
     (case f of
        None \<Rightarrow> {}
      | Some (rows, _) \<Rightarrow> set (map hd (filter (\<lambda>row. row \<noteq> []) (drop 1 rows))))"

definition csv_header :: "string list" where
  "csv_header = [''sender_email'', ''timestamp'', ''character_used'', ''fallback_used'']"

text \<open>\<^verbatim>\<open>csv.writer\<close> writes \<^verbatim>\<open>None\<close> as the empty field.\<close>

definition csv_field :: "string option \<Rightarrow> string" where
  "csv_field v = (case v of None \<Rightarrow> [] | Some x \<Rightarrow> x)"

text \<open>The row of lines 110 to 115.\<close>

definition ledger_row :: "string \<Rightarrow> string \<Rightarrow> string option \<Rightarrow> bool \<Rightarrow> string list" where
  "ledger_row now sender character_name used_fallback =
     [sender, now, csv_field character_name, if used_fallback then ''Yes'' else ''No'']"

text \<open>
  What the file reads as once the text of a row and its line terminator are appended.
  After a terminated last line the row is a new row. After a last line without
  terminator the text continues that line: its last field and the first field of the row
  are read as one field (the fields being such as \<^verbatim>\<open>csv.writer\<close> writes without
  quotes).
\<close>

definition append_row :: "string list \<Rightarrow> string list list \<times> bool \<Rightarrow> string list list \<times> bool" where
  "append_row row c =
     (case c of (rows, unterminated) \<Rightarrow>
        (if unterminated \<and> rows \<noteq> [] \<and> last rows \<noteq> [] \<and> row \<noteq> []
         then butlast rows @ [butlast (last rows) @ [last (last rows) @ hd row] @ tl row]
         else rows @ [row],
         False))"

text \<open>The file after lines 105 to 115 have run to their end.\<close>

definition saved_file :: "string \<Rightarrow> string \<Rightarrow> string option \<Rightarrow> bool \<Rightarrow> csv_file \<Rightarrow> csv_file" where
  "saved_file now sender character_name used_fallback f =
     Some (append_row (ledger_row now sender character_name used_fallback)
             (case f of None \<Rightarrow> ([csv_header], False) | Some c \<Rightarrow> c))"

text \<open>
  The first argument is the outcome of lines 106 to 115: they run to their end, or an
  exception leaves them. In the second case the file is as the failed write left it:
  unchanged when it could not be opened, otherwise with whatever part of the text
  reached it.
\<close>

definition save_replied_sender ::
  "exn \<times> csv_file + unit \<Rightarrow> string \<Rightarrow> string \<Rightarrow> string option \<Rightarrow> bool \<Rightarrow> state
     \<Rightarrow> exn option \<times> state"
  where
  "save_replied_sender outcome now sender character_name used_fallback s =
     (case outcome of
        Inl (e, left) \<Rightarrow> (Some e, s\<lparr>replied_senders_csv := left\<rparr>)
      | Inr _ \<Rightarrow>
          (let is_new_file = (replied_senders_csv s = None);
               s1 = (if is_new_file then emit WroteHeader s else s);
               s2 = s1\<lparr>replied_senders_csv :=
                      saved_file now sender character_name used_fallback (replied_senders_csv s)\<rparr>
           in (None, emit (WroteRow (ledger_row now sender character_name used_fallback)) s2)))"

definition endswith :: "string \<Rightarrow> string \<Rightarrow> bool" where
  "endswith s suffix =
     (length suffix \<le> length s \<and> drop (length s - length suffix) s = suffix)"

fun load_entries ::
  "character list \<Rightarrow> (string \<times> (exn + character)) list \<Rightarrow> exn + character list" where
  "load_entries acc [] = Inr acc"
| "load_entries acc ((file, r) # rest) =
     (if endswith file ''.json''
      then (case r of Inl e \<Rightarrow> Inl e | Inr c \<Rightarrow> load_entries (acc @ [c]) rest)
      else load_entries acc rest)"

definition load_characters ::
  "(string \<times> (exn + character)) list option \<Rightarrow> exn + character list" where
  "load_characters d = (case d of None \<Rightarrow> Inr [] | Some entries \<Rightarrow> load_entries [] entries)"

definition load_fallback_message :: "(exn + string option) option \<Rightarrow> exn + string" where
  "load_fallback_message j =
     (case j of
        None \<Rightarrow> Inr ''Thank you for reaching out! I'll get back to you soon.''
      | Some (Inl e) \<Rightarrow> Inl e
      | Some (Inr None) \<Rightarrow> Inr ''Thank you for your email!''
      | Some (Inr (Some m)) \<Rightarrow> Inr m)"

text \<open>
  \<^verbatim>\<open>str.strip()\<close> removes the white space of \<^verbatim>\<open>str.isspace\<close> at both ends; below
  256 these are the code points 9 to 13, 28 to 32, 133 and 160.
\<close>

definition is_space :: "char \<Rightarrow> bool" where
  "is_space c =
     (let n = (of_char c :: nat)
      in (9 \<le> n \<and> n \<le> 13) \<or> (28 \<le> n \<and> n \<le> 32) \<or> n = 133 \<or> n = 160)"

definition strip :: "string \<Rightarrow> string" where
  "strip s = rev (dropWhile is_space (rev (dropWhile is_space s)))"

text \<open>
  The argument is the outcome of \<^verbatim>\<open>client.chat.completions.create\<close> followed by
  the reading of the first choice's content; the prompt only reaches the collaborator.
\<close>

definition generate_ai_reply :: "exn + string \<Rightarrow> state \<Rightarrow> (exn + string option) \<times> state" where
  "generate_ai_reply completion s =
     (case completion of
        Inr content \<Rightarrow> (Inr (Some (strip content)), s)
      | Inl (Exception e) \<Rightarrow> (Inr None, emit (LogOllamaError (Exception e)) s)
      | Inl KeyboardInterrupt \<Rightarrow> (Inl KeyboardInterrupt, s))"

text \<open>The message that \<^verbatim>\<open>send_reply\<close> builds before it calls the gateway.\<close>

definition reply_message :: "string \<Rightarrow> string \<Rightarrow> string \<Rightarrow> character \<Rightarrow> mail" where
  "reply_message to_email subject message_body character =
     \<lparr>mail_to = to_email,
      mail_subject = ''Re: '' @ subject @ '' - OOO Automated Reply'',
      mail_from = ''secure.test@debagnik.in'',
      mail_body = message_body @ [CHR 0x0A, CHR 0x0A] @ ''-''
         @ (case name character of None \<Rightarrow> ''Automated System'' | Some n \<Rightarrow> n) @ ''.''\<rparr>"

definition send_reply ::
  "exn + unit \<Rightarrow> string \<Rightarrow> string \<Rightarrow> string \<Rightarrow> character \<Rightarrow> state \<Rightarrow> exn option \<times> state" where
  "send_reply outcome to_email subject message_body character s =
     (case outcome of
        Inl e \<Rightarrow> (Some e, s)
      | Inr _ \<Rightarrow> (None, emit (Sent (reply_message to_email subject message_body character)) s))"

definition choice :: "'a list \<Rightarrow> nat \<Rightarrow> exn + 'a" where
  "choice xs d = (if xs = [] then Inl (Exception ''IndexError'') else Inr (xs ! (d mod length xs)))"

text \<open>Line 175 of \<^verbatim>\<open>main\<close>: the candidates that are skipped.\<close>

definition skipped :: "run_config \<Rightarrow> string option \<Rightarrow> state \<Rightarrow> bool" where
  "skipped cfg sender s =
     (case sender of
        None \<Rightarrow> True
      | Some a \<Rightarrow> a = [] \<or> (reply_once cfg \<and> a \<in> replied_senders s) \<or> a = my_email cfg)"

text \<open>Lines 192 to 195: the reply body and the fallback mark.\<close>

definition choose_body :: "string \<Rightarrow> string option \<Rightarrow> string \<times> bool" where
  "choose_body fallback ai_reply =
     (case ai_reply of
        None \<Rightarrow> (fallback, True)
      | Some t \<Rightarrow> if t = [] then (fallback, True) else (t, False))"

text \<open>
  Lines 200 to 204: what follows a send that returned. The sender joins the set before
  the ledger file is written; an exception of the write leaves the block after that.
\<close>

definition record_reply ::
  "msg_env \<Rightarrow> string \<Rightarrow> character \<Rightarrow> bool \<Rightarrow> state \<Rightarrow> exn option \<times> state" where
  "record_reply m sender character used_fallback s =
     (let s1 = s\<lparr>replied_senders := insert sender (replied_senders s)\<rparr>;
          s2 = deliver (DuringRecord \<in> set (m_signals m)) s1
      in case save_replied_sender (m_write m) (m_now m) sender (name character)
                used_fallback s2 of
           (Some e, s3) \<Rightarrow> (Some e, s3)
         | (None, s3) \<Rightarrow>
             (None, emit (PrintReplied sender (name character) used_fallback)
                      (emit (LogReplied sender (name character) used_fallback) s3)))"

text \<open>Lines 178 to 204: the reply to a candidate that was not skipped.\<close>

definition reply_to :: "run_config \<Rightarrow> msg_env \<Rightarrow> string \<Rightarrow> state \<Rightarrow> exn option \<times> state" where
  "reply_to cfg m sender s =
     (case choice (characters cfg) (m_draw m) of
        Inl e \<Rightarrow> (Some e, s)
      | Inr character \<Rightarrow>
          (case generate_ai_reply (m_completion m)
                  (deliver (DuringGenerate \<in> set (m_signals m)) s) of
             (Inl e, s1) \<Rightarrow> (Some e, s1)
           | (Inr ai_reply, s1) \<Rightarrow>
               (case choose_body (fallback_message cfg) ai_reply of
                  (body, used_fallback) \<Rightarrow>
                    (case send_reply (m_send m) sender ''Automated Reply'' body character
                            (deliver (DuringSend \<in> set (m_signals m)) s1) of
                       (Some e, s2) \<Rightarrow> (Some e, s2)
                     | (None, s2) \<Rightarrow>
                         record_reply m sender character used_fallback s2))))"

text \<open>The body of the \<^verbatim>\<open>for\<close> loop over the listed messages.\<close>

definition process_candidate :: "run_config \<Rightarrow> msg_env \<Rightarrow> state \<Rightarrow> exn option \<times> state" where
  "process_candidate cfg m s =
     (let s1 = deliver (DuringFetch \<in> set (m_signals m)) s
      in case m_fetch m of
           Inl e \<Rightarrow> (Some e, s1)
         | Inr headers \<Rightarrow>
             (let sender = get_sender (parseaddr cfg) headers
              in if skipped cfg sender s1 then (None, s1)
                 else reply_to cfg m (the sender) s1))"

text \<open>The \<^verbatim>\<open>for\<close> loop: an exception leaves it, and the messages after it are not reached.\<close>

fun process_messages :: "run_config \<Rightarrow> msg_env list \<Rightarrow> state \<Rightarrow> exn option \<times> state" where
  "process_messages cfg [] s = (None, s)"
| "process_messages cfg (m # ms) s =
     (case process_candidate cfg m s of
        (Some e, s') \<Rightarrow> (Some e, s')
      | (None, s') \<Rightarrow> process_messages cfg ms s')"

text \<open>
  Lines 207 to 210: at most \<open>n\<close> sleeps of one second, the flag read before each. The
  list says during which of the sleeps a signal arrives.
\<close>

fun responsive_sleep :: "nat \<Rightarrow> bool list \<Rightarrow> state \<Rightarrow> state" where
  "responsive_sleep 0 sigs s = s"
| "responsive_sleep (Suc n) sigs s =
     (if shutdown_requested s then s
      else responsive_sleep n (tl sigs)
             (deliver (case sigs of [] \<Rightarrow> False | b # _ \<Rightarrow> b) (emit (Sleep 1) s)))"

text \<open>The \<^verbatim>\<open>try\<close> block of the loop body, up to the exception that leaves it.\<close>

definition try_body :: "run_config \<Rightarrow> iter_env \<Rightarrow> state \<Rightarrow> exn option \<times> state" where
  "try_body cfg env s =
     (case get_unread_messages (i_results env) (deliver (i_sig_poll env) s) of
        (Inl e, s1) \<Rightarrow> (Some e, s1)
      | (Inr messages, s1) \<Rightarrow>
          (case process_messages cfg messages s1 of
             (Some e, s2) \<Rightarrow> (Some e, s2)
           | (None, s2) \<Rightarrow>
               (None, responsive_sleep (nat (check_interval cfg)) (i_ticks env) s2)))"

text \<open>One pass through the body of the \<^verbatim>\<open>while\<close> loop, with its two handlers.\<close>

definition iteration :: "run_config \<Rightarrow> iter_env \<Rightarrow> state \<Rightarrow> state" where
  "iteration cfg env s =
     (case try_body cfg env s of
        (None, s1) \<Rightarrow> s1
      | (Some KeyboardInterrupt, s1) \<Rightarrow> graceful_shutdown s1
      | (Some (Exception e), s1) \<Rightarrow>
          deliver (i_sig_err env) (emit (Sleep 5) (emit (LogRuntimeError (Exception e)) s1)))"

text \<open>
  The \<^verbatim>\<open>while\<close> loop and the two lines after it. The loop runs as long as the
  environment is observed: when the list of iterations ends with the flag still unset,
  the process is still running and the state is the one reached so far.
\<close>

definition stopped :: "state \<Rightarrow> state" where
  "stopped s = emit PrintStopped (emit LogStopped s)"

fun main_loop :: "run_config \<Rightarrow> iter_env list \<Rightarrow> state \<Rightarrow> state" where
  "main_loop cfg [] s = (if shutdown_requested s then stopped s else s)"
| "main_loop cfg (env # envs) s =
     (if shutdown_requested s then stopped s
      else main_loop cfg envs (iteration cfg env s))"

text \<open>
  \<^verbatim>\<open>main\<close>, from a fresh process: the flag is unset, the trace empty. The parameters
  are the settings read from the process environment, the ledger file as the previous
  processes left it, and the collaborators' behaviour. An exception before the loop is
  not caught: the process ends with it.
\<close>

definition main ::
  "bool \<Rightarrow> int \<Rightarrow> (string \<Rightarrow> string) \<Rightarrow> startup_env \<Rightarrow> iter_env list
     \<Rightarrow> csv_file \<Rightarrow> exn option \<times> state" where
  "main REPLY_ONCE CHECK_INTERVAL pa st envs f =
     (let s0 = \<lparr>shutdown_requested = False, replied_senders = {},
                replied_senders_csv = f, trace = [LogStarting, PrintStarted REPLY_ONCE]\<rparr>
      in case s_auth st of
           Inl e \<Rightarrow> (Some e, s0)
         | Inr email \<Rightarrow>
             (let s1 = s0\<lparr>replied_senders := load_replied_senders f\<rparr>
              in case load_characters (s_characters_dir st) of
                   Inl e \<Rightarrow> (Some e, s1)
                 | Inr cs \<Rightarrow>
                     (case load_fallback_message (s_reply_json st) of
                        Inl e \<Rightarrow> (Some e, s1)
                      | Inr fb \<Rightarrow>
                          (let s2 = (if cs = [] then emit LogNoCharacters s1 else s1);
                               cs' = (if cs = []
                                      then [\<lparr>name = Some ''Default'', style = Some ''friendly'',
                                              randomFacts = None, quirks = None\<rparr>]
                                      else cs)
                           in (None,
                               main_loop
                                 \<lparr>reply_once = REPLY_ONCE, check_interval = CHECK_INTERVAL,
                                  my_email = email, characters = cs',
                                  fallback_message = fb, parseaddr = pa\<rparr>
                                 envs s2)))))"

section \<open>Observations on traces and ledgers\<close>

text \<open>The messages that the gateway accepted, in the order of sending.\<close>

fun sent_mails :: "event list \<Rightarrow> mail list" where
  "sent_mails [] = []"
| "sent_mails (Sent m # es) = m # sent_mails es"
| "sent_mails (_ # es) = sent_mails es"

text \<open>The data rows that the process wrote to the ledger file, in the order of writing.\<close>

fun written_rows :: "event list \<Rightarrow> string list list" where
  "written_rows [] = []"
| "written_rows (WroteRow r # es) = r # written_rows es"
| "written_rows (_ # es) = written_rows es"

text \<open>
  A sequence of completed record operations on the ledger file, each with its sender,
  clock reading, persona name and fallback mark.
\<close>

fun record_all ::
  "(string \<times> string \<times> string option \<times> bool) list \<Rightarrow> csv_file \<Rightarrow> csv_file" where
  "record_all [] f = f"
| "record_all ((sender, now, character_name, used_fallback) # rs) f =
     record_all rs (saved_file now sender character_name used_fallback f)"

text \<open>What \<^verbatim>\<open>generate_ai_reply\<close> returns when it returns.\<close>

definition generated :: "exn + string \<Rightarrow> string option" where
  "generated k = (case k of Inr content \<Rightarrow> Some (strip content) | Inl _ \<Rightarrow> None)"

text \<open>
  The subject of the received message, as the mail gateway delivers it: the value of the
  first header named \<^verbatim>\<open>Subject\<close>. The program never reads it; the definition
  serves to state what a reply's subject is compared with.
\<close>

fun original_subject :: "(string \<times> string) list \<Rightarrow> string option" where
  "original_subject [] = None"
| "original_subject ((n, v) # headers) =
     (if map lower_char n = ''subject'' then Some v else original_subject headers)"

text \<open>The durations of the calls of \<^verbatim>\<open>time.sleep\<close>, in order.\<close>

fun sleeps :: "event list \<Rightarrow> nat list" where
  "sleeps [] = []"
| "sleeps (Sleep n # es) = n # sleeps es"
| "sleeps (_ # es) = sleeps es"

text \<open>
  The part of the state that the claims observe: the set of replied senders, the ledger
  file, the messages sent and the rows written.
\<close>

definition obs :: "state \<Rightarrow> string set \<times> csv_file \<times> mail list \<times> string list list" where
  "obs s = (replied_senders s, replied_senders_csv s, sent_mails (trace s),
            written_rows (trace s))"

text \<open>
  The three things a candidate can do to the observed part of the state: nothing; a
  message sent, the sender added and a row written; or, when the append fails, a message
  sent and the sender added, with the file as the failed write left it.
\<close>

definition recorded :: "msg_env \<Rightarrow> string \<Rightarrow> state \<Rightarrow> exn option \<times> state \<Rightarrow> bool" where
  "recorded m a s r =
     (\<exists>body c fb. m_write m = Inr () \<and> fst r = None
        \<and> obs (snd r)
            = (insert a (replied_senders s),
               saved_file (m_now m) a (name c) fb (replied_senders_csv s),
               sent_mails (trace s) @ [reply_message a ''Automated Reply'' body c],
               written_rows (trace s) @ [ledger_row (m_now m) a (name c) fb]))"

definition unrecorded :: "msg_env \<Rightarrow> string \<Rightarrow> state \<Rightarrow> exn option \<times> state \<Rightarrow> bool" where
  "unrecorded m a s r =
     (\<exists>body c e left. m_write m = Inl (e, left) \<and> fst r = Some e
        \<and> obs (snd r)
            = (insert a (replied_senders s), left,
               sent_mails (trace s) @ [reply_message a ''Automated Reply'' body c],
               written_rows (trace s)))"

text \<open>The same candidate when no signal arrives while it is processed.\<close>

definition without_signals :: "msg_env \<Rightarrow> msg_env" where
  "without_signals m = m\<lparr>m_signals := []\<rparr>"





text \<open>
  The two conditions under which the ledger carries the reply-once policy from one
  process to the next: the file, when the first process starts, is absent or has at
  least one row and a terminated last line; and every append to it succeeds.
\<close>

definition ledger_ready :: "csv_file \<Rightarrow> bool" where
  "ledger_ready f = (case f of None \<Rightarrow> True | Some (rows, unterminated) \<Rightarrow> rows \<noteq> [] \<and> \<not> unterminated)"







section \<open>A concrete run\<close>

text \<open>
  A configuration with the default persona alone, a fresh state, and a message from
  \<^verbatim>\<open>ann@example.org\<close> with the subject \<^verbatim>\<open>Lunch\<close>, under several behaviours of the
  collaborators.
\<close>

definition default_character :: character where
  "default_character =
     \<lparr>name = Some ''Default'', style = Some ''friendly'', randomFacts = None, quirks = None\<rparr>"

definition ex_cfg :: run_config where
  "ex_cfg =
     \<lparr>reply_once = True, check_interval = 3, my_email = ''me@example.org'',
      characters = [default_character], fallback_message = ''I am away.'',
      parseaddr = (\<lambda>v. v)\<rparr>"

definition ex_state :: state where
  "ex_state =
     \<lparr>shutdown_requested = False, replied_senders = {}, replied_senders_csv = None,
      trace = []\<rparr>"

definition ex_msg :: "string \<Rightarrow> exn + string \<Rightarrow> exn + unit \<Rightarrow> msg_env" where
  "ex_msg sender completion outcome =
     \<lparr>m_fetch = Inr [(''Subject'', ''Lunch''), (''From'', sender)], m_draw = 0,
      m_completion = completion, m_send = outcome, m_write = Inr (),
      m_now = ''2024-01-01T00:00:00+00:00'', m_signals = []\<rparr>"

definition ex_iter :: "exn + msg_env list option \<Rightarrow> iter_env" where
  "ex_iter results = \<lparr>i_results = results, i_sig_poll = False, i_ticks = [], i_sig_err = False\<rparr>"

definition ex_startup :: "(string \<times> (exn + character)) list option \<Rightarrow> startup_env" where
  "ex_startup d = \<lparr>s_auth = Inr ''me@example.org'', s_characters_dir = d, s_reply_json = None\<rparr>"

text \<open>An idle poll: the listing has no \<^verbatim>\<open>messages\<close> key.\<close>

definition ex_sleep_env :: "bool list \<Rightarrow> iter_env" where
  "ex_sleep_env ticks =
     \<lparr>i_results = Inr None, i_sig_poll = False, i_ticks = ticks, i_sig_err = False\<rparr>"



section \<open>Basic facts about the state operations\<close>

lemma sent_mails_append: "sent_mails (xs @ ys) = sent_mails xs @ sent_mails ys"
  by (induction xs rule: sent_mails.induct) simp_all

lemma sleeps_append: "sleeps (xs @ ys) = sleeps xs @ sleeps ys"
  by (induction xs rule: sleeps.induct) simp_all

lemma written_rows_append: "written_rows (xs @ ys) = written_rows xs @ written_rows ys"
  by (induction xs rule: written_rows.induct) simp_all

lemma emit_fields:
  "shutdown_requested (emit e s) = shutdown_requested s"
  "replied_senders (emit e s) = replied_senders s"
  "replied_senders_csv (emit e s) = replied_senders_csv s"
  "trace (emit e s) = trace s @ [e]"
  by (simp_all add: emit_def)

lemma graceful_shutdown_fields:
  "shutdown_requested (graceful_shutdown s) = True"
  "replied_senders (graceful_shutdown s) = replied_senders s"
  "replied_senders_csv (graceful_shutdown s) = replied_senders_csv s"
  "sent_mails (trace (graceful_shutdown s)) = sent_mails (trace s)"
  "sleeps (trace (graceful_shutdown s)) = sleeps (trace s)"
  "written_rows (trace (graceful_shutdown s)) = written_rows (trace s)"
  by (simp_all add: graceful_shutdown_def emit_fields sent_mails_append sleeps_append
      written_rows_append)

lemma deliver_fields:
  "shutdown_requested (deliver b s) = (b \<or> shutdown_requested s)"
  "replied_senders (deliver b s) = replied_senders s"
  "replied_senders_csv (deliver b s) = replied_senders_csv s"
  "sent_mails (trace (deliver b s)) = sent_mails (trace s)"
  "sleeps (trace (deliver b s)) = sleeps (trace s)"
  "written_rows (trace (deliver b s)) = written_rows (trace s)"
  by (simp_all add: deliver_def graceful_shutdown_fields)

lemma skipped_deliver: "skipped cfg sender (deliver b s) = skipped cfg sender s"
  by (simp add: skipped_def deliver_fields split: option.splits)

section \<open>The ledger file\<close>

lemma ledger_row_hd: "hd (ledger_row now a cn fb) = a" "ledger_row now a cn fb \<noteq> []"
  by (simp_all add: ledger_row_def)

lemma append_row_terminated: "append_row row (rows, False) = (rows @ [row], False)"
  by (simp add: append_row_def)

lemma saved_file_ready:
  "ledger_ready f \<Longrightarrow>
   saved_file now a cn fb f
     = Some ((case f of None \<Rightarrow> [csv_header] | Some c \<Rightarrow> fst c) @ [ledger_row now a cn fb], False)"
  by (cases f) (auto simp: ledger_ready_def saved_file_def append_row_def)

lemma ledger_ready_saved: "ledger_ready f \<Longrightarrow> ledger_ready (saved_file now a cn fb f)"
  by (simp add: saved_file_ready) (simp add: ledger_ready_def)

lemma load_append:
  "rows \<noteq> [] \<Longrightarrow> r \<noteq> [] \<Longrightarrow>
   load_replied_senders (Some (rows @ [r], b))
     = insert (hd r) (load_replied_senders (Some (rows, b')))"
  by (cases rows) (auto simp: load_replied_senders_def)

lemma load_saved:
  assumes "ledger_ready f"
  shows "load_replied_senders (saved_file now a cn fb f) = insert a (load_replied_senders f)"
proof (cases f)
  case None
  have sf: "saved_file now a cn fb None = Some ([csv_header] @ [ledger_row now a cn fb], False)"
    by (simp add: saved_file_def append_row_def)
  have e: "load_replied_senders (Some ([csv_header], False)) = {}"
    "load_replied_senders None = {}"
    by (simp_all add: load_replied_senders_def)
  show ?thesis
    unfolding None sf
    using load_append [of "[csv_header]" "ledger_row now a cn fb" False False]
    by (simp only: e ledger_row_hd) simp
next
  case (Some c)
  with assms obtain rows where c: "c = (rows, False)" and ne: "rows \<noteq> []"
    by (cases c) (auto simp: ledger_ready_def)
  have sf: "saved_file now a cn fb (Some (rows, False))
      = Some (rows @ [ledger_row now a cn fb], False)"
    by (simp add: saved_file_def append_row_def)
  show ?thesis
    unfolding Some c sf
    using load_append [OF ne ledger_row_hd(2), of now a cn fb False False]
    by (simp only: ledger_row_hd)
qed

lemma load_record_all:
  "ledger_ready f \<Longrightarrow>
   load_replied_senders (record_all recs f) = load_replied_senders f \<union> set (map fst recs)"
proof (induction recs arbitrary: f)
  case Nil
  then show ?case by simp
next
  case (Cons r recs)
  obtain sender now cn fb where r: "r = (sender, now, cn, fb)"
    by (cases r) auto
  show ?case
    using Cons.IH [OF ledger_ready_saved [OF Cons.prems], of now sender cn fb]
    by (simp add: r load_saved [OF Cons.prems])
qed

lemma save_replied_sender_written:
  "fst (save_replied_sender (Inr ()) now a cn fb s) = None"
  "shutdown_requested (snd (save_replied_sender (Inr ()) now a cn fb s)) = shutdown_requested s"
  "replied_senders (snd (save_replied_sender (Inr ()) now a cn fb s)) = replied_senders s"
  "replied_senders_csv (snd (save_replied_sender (Inr ()) now a cn fb s))
     = saved_file now a cn fb (replied_senders_csv s)"
  "sent_mails (trace (snd (save_replied_sender (Inr ()) now a cn fb s))) = sent_mails (trace s)"
  "written_rows (trace (snd (save_replied_sender (Inr ()) now a cn fb s)))
     = written_rows (trace s) @ [ledger_row now a cn fb]"
  by (simp_all add: save_replied_sender_def Let_def emit_fields sent_mails_append
      written_rows_append)

lemma save_replied_sender_fails:
  "save_replied_sender (Inl (e, left)) now a cn fb s = (Some e, s\<lparr>replied_senders_csv := left\<rparr>)"
  by (simp add: save_replied_sender_def)

section \<open>One candidate\<close>

lemma record_reply_saved:
  assumes "m_write m = Inr ()"
  shows "fst (record_reply m a c fb s) = None"
    and "replied_senders (snd (record_reply m a c fb s)) = insert a (replied_senders s)"
    and "replied_senders_csv (snd (record_reply m a c fb s))
           = saved_file (m_now m) a (name c) fb (replied_senders_csv s)"
    and "sent_mails (trace (snd (record_reply m a c fb s))) = sent_mails (trace s)"
    and "written_rows (trace (snd (record_reply m a c fb s)))
           = written_rows (trace s) @ [ledger_row (m_now m) a (name c) fb]"
    and "shutdown_requested (snd (record_reply m a c fb s))
           = (DuringRecord \<in> set (m_signals m) \<or> shutdown_requested s)"
proof -
  let ?s2 = "deliver (DuringRecord \<in> set (m_signals m))
               (s\<lparr>replied_senders := insert a (replied_senders s)\<rparr>)"
  obtain x s3 where sv: "save_replied_sender (Inr ()) (m_now m) a (name c) fb ?s2 = (x, s3)"
    by (cases "save_replied_sender (Inr ()) (m_now m) a (name c) fb ?s2") auto
  note w = save_replied_sender_written [of "m_now m" a "name c" fb ?s2]
  from w(1) sv have x: "x = None" by simp
  have eq: "record_reply m a c fb s
      = (None, emit (PrintReplied a (name c) fb) (emit (LogReplied a (name c) fb) s3))"
    by (simp add: record_reply_def Let_def assms sv x)
  show "fst (record_reply m a c fb s) = None" by (simp add: eq)
  show "replied_senders (snd (record_reply m a c fb s)) = insert a (replied_senders s)"
    using w(3) sv by (simp add: eq emit_fields deliver_fields)
  show "replied_senders_csv (snd (record_reply m a c fb s))
           = saved_file (m_now m) a (name c) fb (replied_senders_csv s)"
    using w(4) sv by (simp add: eq emit_fields deliver_fields)
  show "sent_mails (trace (snd (record_reply m a c fb s))) = sent_mails (trace s)"
    using w(5) sv by (simp add: eq emit_fields deliver_fields sent_mails_append)
  show "written_rows (trace (snd (record_reply m a c fb s)))
           = written_rows (trace s) @ [ledger_row (m_now m) a (name c) fb]"
    using w(6) sv by (simp add: eq emit_fields deliver_fields written_rows_append)
  show "shutdown_requested (snd (record_reply m a c fb s))
           = (DuringRecord \<in> set (m_signals m) \<or> shutdown_requested s)"
    using w(2) sv by (simp add: eq emit_fields deliver_fields)
qed

lemma record_reply_write_fails:
  assumes "m_write m = Inl (e, left)"
  shows "record_reply m a c fb s
           = (Some e, (deliver (DuringRecord \<in> set (m_signals m))
                         (s\<lparr>replied_senders := insert a (replied_senders s)\<rparr>))
                      \<lparr>replied_senders_csv := left\<rparr>)"
  by (simp add: record_reply_def Let_def assms save_replied_sender_fails)

lemma generate_ai_reply_fields:
  "replied_senders (snd (generate_ai_reply k s)) = replied_senders s"
  "replied_senders_csv (snd (generate_ai_reply k s)) = replied_senders_csv s"
  "sent_mails (trace (snd (generate_ai_reply k s))) = sent_mails (trace s)"
  "shutdown_requested (snd (generate_ai_reply k s)) = shutdown_requested s"
  "written_rows (trace (snd (generate_ai_reply k s))) = written_rows (trace s)"
  by (simp_all add: generate_ai_reply_def emit_fields sent_mails_append written_rows_append
      split: sum.splits exn.splits)

lemma generate_ai_reply_returns:
  "k \<noteq> Inl KeyboardInterrupt \<Longrightarrow> fst (generate_ai_reply k s) = Inr (generated k)"
  by (simp add: generate_ai_reply_def generated_def split: sum.splits exn.splits)

text \<open>
  A candidate that passes the filter, whose generation returns and whose send succeeds:
  the state in which the reply is recorded.
\<close>

lemma reply_to_reaches_record:
  assumes c: "choice (characters cfg) (m_draw m) = Inr c"
    and k: "m_completion m \<noteq> Inl KeyboardInterrupt"
    and snd_ok: "m_send m = Inr ()"
    and b: "choose_body (fallback_message cfg) (generated (m_completion m)) = (body, fb)"
  obtains s2 where "reply_to cfg m a s = record_reply m a c fb s2"
    and "replied_senders s2 = replied_senders s"
    and "replied_senders_csv s2 = replied_senders_csv s"
    and "sent_mails (trace s2) = sent_mails (trace s) @ [reply_message a ''Automated Reply'' body c]"
    and "written_rows (trace s2) = written_rows (trace s)"
    and "shutdown_requested s2
           = (shutdown_requested s \<or> DuringGenerate \<in> set (m_signals m)
                \<or> DuringSend \<in> set (m_signals m))"
proof -
  let ?s1 = "deliver (DuringGenerate \<in> set (m_signals m)) s"
  obtain r g where g: "generate_ai_reply (m_completion m) ?s1 = (r, g)"
    by (cases "generate_ai_reply (m_completion m) ?s1") auto
  have r: "r = Inr (generated (m_completion m))"
    using generate_ai_reply_returns [OF k, of ?s1] g by simp
  have gf: "replied_senders g = replied_senders s"
    "replied_senders_csv g = replied_senders_csv s"
    "sent_mails (trace g) = sent_mails (trace s)"
    "written_rows (trace g) = written_rows (trace s)"
    "shutdown_requested g = (DuringGenerate \<in> set (m_signals m) \<or> shutdown_requested s)"
    using generate_ai_reply_fields [of "m_completion m" ?s1] g
    by (simp_all add: deliver_fields)
  let ?s2 = "emit (Sent (reply_message a ''Automated Reply'' body c))
               (deliver (DuringSend \<in> set (m_signals m)) g)"
  have eq: "reply_to cfg m a s = record_reply m a c fb ?s2"
    by (simp add: reply_to_def c g r b send_reply_def snd_ok)
  show ?thesis
    by (rule that [OF eq])
      (auto simp: emit_fields deliver_fields sent_mails_append written_rows_append gf)
qed

lemma reply_to_sent:
  assumes c: "choice (characters cfg) (m_draw m) = Inr c"
    and k: "m_completion m \<noteq> Inl KeyboardInterrupt"
    and snd_ok: "m_send m = Inr ()"
    and b: "choose_body (fallback_message cfg) (generated (m_completion m)) = (body, fb)"
  shows "sent_mails (trace (snd (reply_to cfg m a s)))
           = sent_mails (trace s) @ [reply_message a ''Automated Reply'' body c]"
    and "replied_senders (snd (reply_to cfg m a s)) = insert a (replied_senders s)"
    and "m_write m = Inr () \<Longrightarrow> fst (reply_to cfg m a s) = None"
    and "m_write m = Inr () \<Longrightarrow> replied_senders_csv (snd (reply_to cfg m a s))
           = saved_file (m_now m) a (name c) fb (replied_senders_csv s)"
    and "m_write m = Inr () \<Longrightarrow> written_rows (trace (snd (reply_to cfg m a s)))
           = written_rows (trace s) @ [ledger_row (m_now m) a (name c) fb]"
    and "m_write m = Inl (e, left) \<Longrightarrow> fst (reply_to cfg m a s) = Some e"
    and "m_write m = Inl (e, left) \<Longrightarrow>
           replied_senders_csv (snd (reply_to cfg m a s)) = left"
    and "m_write m = Inl (e, left) \<Longrightarrow>
           written_rows (trace (snd (reply_to cfg m a s))) = written_rows (trace s)"
proof -
  from reply_to_reaches_record [OF c k snd_ok b, of a s]
  obtain s2 where eq: "reply_to cfg m a s = record_reply m a c fb s2"
    and f: "replied_senders s2 = replied_senders s"
      "replied_senders_csv s2 = replied_senders_csv s"
      "sent_mails (trace s2) = sent_mails (trace s) @ [reply_message a ''Automated Reply'' body c]"
      "written_rows (trace s2) = written_rows (trace s)"
    by blast
  show "sent_mails (trace (snd (reply_to cfg m a s)))
           = sent_mails (trace s) @ [reply_message a ''Automated Reply'' body c]"
  proof (cases "m_write m")
    case (Inl p)
    then have w: "m_write m = Inl (fst p, snd p)" by simp
    show ?thesis by (simp add: eq record_reply_write_fails [OF w] deliver_fields f)
  next
    case (Inr u)
    then have "m_write m = Inr ()" by simp
    then show ?thesis by (simp add: eq record_reply_saved(4) f)
  qed
  show "replied_senders (snd (reply_to cfg m a s)) = insert a (replied_senders s)"
  proof (cases "m_write m")
    case (Inl p)
    then have w: "m_write m = Inl (fst p, snd p)" by simp
    show ?thesis by (simp add: eq record_reply_write_fails [OF w] deliver_fields f)
  next
    case (Inr u)
    then have "m_write m = Inr ()" by simp
    then show ?thesis by (simp add: eq record_reply_saved(2) f)
  qed
  show "m_write m = Inr () \<Longrightarrow> fst (reply_to cfg m a s) = None"
    by (simp add: eq record_reply_saved(1))
  show "m_write m = Inr () \<Longrightarrow> replied_senders_csv (snd (reply_to cfg m a s))
           = saved_file (m_now m) a (name c) fb (replied_senders_csv s)"
    by (simp add: eq record_reply_saved(3) f)
  show "m_write m = Inr () \<Longrightarrow> written_rows (trace (snd (reply_to cfg m a s)))
           = written_rows (trace s) @ [ledger_row (m_now m) a (name c) fb]"
    by (simp add: eq record_reply_saved(5) f)
  show "m_write m = Inl (e, left) \<Longrightarrow> fst (reply_to cfg m a s) = Some e"
    by (simp add: eq record_reply_write_fails)
  show "m_write m = Inl (e, left) \<Longrightarrow>
           replied_senders_csv (snd (reply_to cfg m a s)) = left"
    by (simp add: eq record_reply_write_fails)
  show "m_write m = Inl (e, left) \<Longrightarrow>
           written_rows (trace (snd (reply_to cfg m a s))) = written_rows (trace s)"
    by (simp add: eq record_reply_write_fails deliver_fields f)
qed

lemma reply_to_recorded_flag:
  assumes c: "choice (characters cfg) (m_draw m) = Inr c"
    and k: "m_completion m \<noteq> Inl KeyboardInterrupt"
    and snd_ok: "m_send m = Inr ()"
    and w: "m_write m = Inr ()"
  shows "shutdown_requested (snd (reply_to cfg m a s))
           = (shutdown_requested s \<or> DuringGenerate \<in> set (m_signals m)
                \<or> DuringSend \<in> set (m_signals m) \<or> DuringRecord \<in> set (m_signals m))"
proof -
  obtain body fb where
    b: "choose_body (fallback_message cfg) (generated (m_completion m)) = (body, fb)"
    by (cases "choose_body (fallback_message cfg) (generated (m_completion m))") auto
  from reply_to_reaches_record [OF c k snd_ok b, of a s]
  obtain s2 where eq: "reply_to cfg m a s = record_reply m a c fb s2"
    and fl: "shutdown_requested s2
           = (shutdown_requested s \<or> DuringGenerate \<in> set (m_signals m)
                \<or> DuringSend \<in> set (m_signals m))"
    by blast
  show ?thesis
    by (auto simp: eq record_reply_saved(6) [OF w] fl)
qed

lemma process_candidate_passes:
  assumes "m_fetch m = Inr headers"
    and "get_sender (parseaddr cfg) headers = Some a"
    and "\<not> skipped cfg (Some a) s"
  shows "process_candidate cfg m s
           = reply_to cfg m a (deliver (DuringFetch \<in> set (m_signals m)) s)"
  using assms by (simp add: process_candidate_def Let_def skipped_deliver)

lemma process_candidate_sent:
  assumes f: "m_fetch m = Inr headers"
    and a: "get_sender (parseaddr cfg) headers = Some a"
    and ns: "\<not> skipped cfg (Some a) s"
    and c: "choice (characters cfg) (m_draw m) = Inr c"
    and k: "m_completion m \<noteq> Inl KeyboardInterrupt"
    and snd_ok: "m_send m = Inr ()"
    and b: "choose_body (fallback_message cfg) (generated (m_completion m)) = (body, fb)"
  shows "sent_mails (trace (snd (process_candidate cfg m s)))
           = sent_mails (trace s) @ [reply_message a ''Automated Reply'' body c]"
    and "replied_senders (snd (process_candidate cfg m s)) = insert a (replied_senders s)"
    and "m_write m = Inr () \<Longrightarrow> fst (process_candidate cfg m s) = None"
    and "m_write m = Inr () \<Longrightarrow> replied_senders_csv (snd (process_candidate cfg m s))
           = saved_file (m_now m) a (name c) fb (replied_senders_csv s)"
    and "m_write m = Inr () \<Longrightarrow> written_rows (trace (snd (process_candidate cfg m s)))
           = written_rows (trace s) @ [ledger_row (m_now m) a (name c) fb]"
    and "m_write m = Inl (e, left) \<Longrightarrow> fst (process_candidate cfg m s) = Some e"
    and "m_write m = Inl (e, left) \<Longrightarrow>
           replied_senders_csv (snd (process_candidate cfg m s)) = left"
    and "m_write m = Inl (e, left) \<Longrightarrow>
           written_rows (trace (snd (process_candidate cfg m s))) = written_rows (trace s)"
  using reply_to_sent(1-5) [OF c k snd_ok b, where a = a
      and s = "deliver (DuringFetch \<in> set (m_signals m)) s"]
    reply_to_sent(6-8) [OF c k snd_ok b, where a = a
      and s = "deliver (DuringFetch \<in> set (m_signals m)) s" and e = e and left = left]
  by (simp_all add: process_candidate_passes [OF f a ns] deliver_fields)

section \<open>What one candidate can change\<close>



lemma obs_deliver: "obs (deliver b s) = obs s"
  by (simp add: obs_def deliver_fields)

lemma obs_generate_ai_reply: "obs (snd (generate_ai_reply k s)) = obs s"
  by (simp add: obs_def generate_ai_reply_fields)

lemma obs_eqD:
  "obs s' = obs s \<Longrightarrow>
   replied_senders s' = replied_senders s \<and> replied_senders_csv s' = replied_senders_csv s
     \<and> sent_mails (trace s') = sent_mails (trace s)
     \<and> written_rows (trace s') = written_rows (trace s)"
  by (simp add: obs_def)

lemma skipped_obs: "obs s' = obs s \<Longrightarrow> skipped cfg sender s' = skipped cfg sender s"
  by (simp add: skipped_def obs_def split: option.splits)

text \<open>A failing send, a failing draw or an interrupt during generation change nothing observed.\<close>

lemma reply_to_send_fails:
  assumes c: "choice (characters cfg) (m_draw m) = Inr c"
    and k: "m_completion m \<noteq> Inl KeyboardInterrupt"
    and f: "m_send m = Inl e"
  shows "fst (reply_to cfg m a s) = Some e"
    and "obs (snd (reply_to cfg m a s)) = obs s"
    and "shutdown_requested (snd (reply_to cfg m a s))
           = (shutdown_requested s \<or> DuringGenerate \<in> set (m_signals m)
                \<or> DuringSend \<in> set (m_signals m))"
proof -
  let ?s1 = "deliver (DuringGenerate \<in> set (m_signals m)) s"
  obtain r s2 where g: "generate_ai_reply (m_completion m) ?s1 = (r, s2)"
    by (cases "generate_ai_reply (m_completion m) ?s1") auto
  have r: "r = Inr (generated (m_completion m))"
    using generate_ai_reply_returns [OF k, of ?s1] g by simp
  have s2: "obs s2 = obs s"
    using obs_generate_ai_reply [of "m_completion m" ?s1] g by (simp add: obs_deliver)
  have fl: "shutdown_requested s2 = (DuringGenerate \<in> set (m_signals m) \<or> shutdown_requested s)"
    using generate_ai_reply_fields(4) [of "m_completion m" ?s1] g by (simp add: deliver_fields)
  obtain body fb where b: "choose_body (fallback_message cfg) (generated (m_completion m)) = (body, fb)"
    by (cases "choose_body (fallback_message cfg) (generated (m_completion m))") auto
  have eq: "reply_to cfg m a s = (Some e, deliver (DuringSend \<in> set (m_signals m)) s2)"
    by (simp add: reply_to_def c g r b send_reply_def f)
  show "fst (reply_to cfg m a s) = Some e" by (simp add: eq)
  show "obs (snd (reply_to cfg m a s)) = obs s" by (simp add: eq obs_deliver s2)
  show "shutdown_requested (snd (reply_to cfg m a s))
           = (shutdown_requested s \<or> DuringGenerate \<in> set (m_signals m)
                \<or> DuringSend \<in> set (m_signals m))"
    by (auto simp: eq deliver_fields fl)
qed

lemma reply_to_effect:
  "obs (snd (reply_to cfg m a s)) = obs s
   \<or> recorded m a s (reply_to cfg m a s) \<or> unrecorded m a s (reply_to cfg m a s)"
proof (cases "choice (characters cfg) (m_draw m)")
  case (Inl e)
  then show ?thesis by (simp add: reply_to_def)
next
  case (Inr c)
  show ?thesis
  proof (cases "m_completion m = Inl KeyboardInterrupt")
    case True
    then show ?thesis
      by (simp add: reply_to_def Inr generate_ai_reply_def obs_deliver)
  next
    case False
    show ?thesis
    proof (cases "m_send m")
      case (Inl e)
      then show ?thesis using reply_to_send_fails(2) [OF Inr False Inl] by simp
    next
      case ok: (Inr u)
      obtain body fb where b: "choose_body (fallback_message cfg) (generated (m_completion m)) = (body, fb)"
        by (cases "choose_body (fallback_message cfg) (generated (m_completion m))") auto
      from ok have ok': "m_send m = Inr ()" by simp
      note r = reply_to_sent [OF Inr False ok' b, where a = a and s = s]
      show ?thesis
      proof (cases "m_write m")
        case (Inl p)
        then have w: "m_write m = Inl (fst p, snd p)" by simp
        have "unrecorded m a s (reply_to cfg m a s)"
          unfolding unrecorded_def
          using r(1,2) reply_to_sent(6-8) [OF Inr False ok' b w, where a = a and s = s] w
          by (auto simp: obs_def)
        then show ?thesis by simp
      next
        case w: (Inr v)
        then have w': "m_write m = Inr ()" by simp
        have "recorded m a s (reply_to cfg m a s)"
          unfolding recorded_def
          using r(1,2) r(3-5) [OF w'] w'
          by (auto simp: obs_def)
        then show ?thesis by simp
      qed
    qed
  qed
qed

lemma process_candidate_effect:
  "obs (snd (process_candidate cfg m s)) = obs s
   \<or> (\<exists>a. \<not> skipped cfg (Some a) s
         \<and> (recorded m a s (process_candidate cfg m s)
              \<or> unrecorded m a s (process_candidate cfg m s)))"
proof (cases "m_fetch m")
  case (Inl e)
  then show ?thesis by (simp add: process_candidate_def Let_def obs_deliver)
next
  case (Inr headers)
  let ?s1 = "deliver (DuringFetch \<in> set (m_signals m)) s"
  show ?thesis
  proof (cases "skipped cfg (get_sender (parseaddr cfg) headers) s")
    case True
    then show ?thesis
      by (simp add: process_candidate_def Let_def Inr skipped_deliver obs_deliver)
  next
    case False
    then obtain a where a: "get_sender (parseaddr cfg) headers = Some a"
      by (cases "get_sender (parseaddr cfg) headers") (auto simp: skipped_def)
    have ns: "\<not> skipped cfg (Some a) s" using False a by simp
    have eq: "process_candidate cfg m s = reply_to cfg m a ?s1"
      by (rule process_candidate_passes [OF Inr a ns])
    have o1: "obs ?s1 = obs s" by (rule obs_deliver)
    have f1: "replied_senders ?s1 = replied_senders s"
      "replied_senders_csv ?s1 = replied_senders_csv s"
      "sent_mails (trace ?s1) = sent_mails (trace s)"
      "written_rows (trace ?s1) = written_rows (trace s)"
      by (simp_all add: deliver_fields)
    have rec: "recorded m a ?s1 r = recorded m a s r" for r
      by (simp add: recorded_def f1)
    have unrec: "unrecorded m a ?s1 r = unrecorded m a s r" for r
      by (simp add: unrecorded_def f1)
    show ?thesis
      using reply_to_effect [of cfg m a ?s1] ns
      by (auto simp: eq o1 rec unrec)
  qed
qed

section \<open>One iteration of the loop\<close>

lemma process_messages_append:
  "process_messages cfg pre s = (None, s2) \<Longrightarrow>
   process_messages cfg (pre @ ms) s = process_messages cfg ms s2"
  by (induction pre arbitrary: s) (auto split: prod.splits option.splits)

lemma process_messages_raises:
  "fst (process_candidate cfg m s) = Some e \<Longrightarrow>
   process_messages cfg (m # rest) s = (Some e, snd (process_candidate cfg m s))"
  by (cases "process_candidate cfg m s") simp

lemma try_body_listed:
  "i_results env = Inr (Some ms) \<Longrightarrow>
   try_body cfg env s =
     (case process_messages cfg ms (emit LogChecked (deliver (i_sig_poll env) s)) of
        (Some e, s2) \<Rightarrow> (Some e, s2)
      | (None, s2) \<Rightarrow> (None, responsive_sleep (nat (check_interval cfg)) (i_ticks env) s2))"
  by (simp add: try_body_def get_unread_messages_def)

lemma try_body_query_fails:
  "i_results env = Inl e \<Longrightarrow> try_body cfg env s = (Some e, deliver (i_sig_poll env) s)"
  by (simp add: try_body_def get_unread_messages_def)

lemma iteration_raised:
  "try_body cfg env s = (Some (Exception e), s1) \<Longrightarrow>
   iteration cfg env s
     = deliver (i_sig_err env) (emit (Sleep 5) (emit (LogRuntimeError (Exception e)) s1))"
  by (simp add: iteration_def)

lemma main_loop_stops: "shutdown_requested s \<Longrightarrow> main_loop cfg envs s = stopped s"
  by (cases envs) simp_all

section \<open>Signals and the shutdown flag\<close>

lemma responsive_sleep_flag_set:
  "shutdown_requested s \<Longrightarrow> responsive_sleep n sigs s = s"
  by (cases n) simp_all

lemma responsive_sleep_signal:
  "\<not> shutdown_requested s \<Longrightarrow> k < n \<Longrightarrow> k < length sigs \<Longrightarrow> sigs ! k
     \<Longrightarrow> \<forall>j<k. \<not> sigs ! j
     \<Longrightarrow> responsive_sleep n sigs s
           = graceful_shutdown (s\<lparr>trace := trace s @ replicate (Suc k) (Sleep 1)\<rparr>)"
proof (induction k arbitrary: n sigs s)
  case 0
  from "0.prems"(2) obtain n' where n: "n = Suc n'" by (cases n) auto
  from "0.prems"(3) "0.prems"(4) obtain t where sigs: "sigs = True # t"
    by (cases sigs) auto
  have "shutdown_requested (deliver True (emit (Sleep 1) s))"
    by (simp add: deliver_fields)
  then show ?case
    using "0.prems"(1)
    by (simp add: n sigs responsive_sleep_flag_set) (simp add: deliver_def emit_def)
next
  case (Suc k)
  from Suc.prems(2) obtain n' where n: "n = Suc n'" and kn: "k < n'" by (cases n) auto
  from Suc.prems(3) obtain b t where sigs: "sigs = b # t" and kt: "k < length t"
    by (cases sigs) auto
  from Suc.prems(5) sigs have b: "\<not> b" by auto
  from Suc.prems(4) sigs have tk: "t ! k" by simp
  from Suc.prems(5) sigs have before: "\<forall>j<k. \<not> t ! j" by auto
  have fl: "\<not> shutdown_requested (emit (Sleep 1) s)"
    using Suc.prems(1) by (simp add: emit_fields)
  have "responsive_sleep n sigs s = responsive_sleep n' t (emit (Sleep 1) s)"
    using Suc.prems(1) b by (simp add: n sigs deliver_def)
  also have "\<dots> = graceful_shutdown
      ((emit (Sleep 1) s)\<lparr>trace := trace (emit (Sleep 1) s) @ replicate (Suc k) (Sleep 1)\<rparr>)"
    by (rule Suc.IH [OF fl kn kt tk before])
  also have "\<dots> = graceful_shutdown (s\<lparr>trace := trace s @ replicate (Suc (Suc k)) (Sleep 1)\<rparr>)"
    by (simp add: emit_def)
  finally show ?case .
qed

text \<open>
  The outcome of a candidate, its sends and its records depend on the observed part of
  the state only: neither on the flag nor on the signals that arrive meanwhile.
\<close>

lemma reply_to_rel:
  assumes o: "obs s' = obs s"
    and d: "m_draw m' = m_draw m"
    and k: "m_completion m' = m_completion m"
    and sd: "m_send m' = m_send m"
    and wr: "m_write m' = m_write m"
    and nw: "m_now m' = m_now m"
  shows "fst (reply_to cfg m' a s') = fst (reply_to cfg m a s)
       \<and> obs (snd (reply_to cfg m' a s')) = obs (snd (reply_to cfg m a s))"
proof (cases "choice (characters cfg) (m_draw m)")
  case (Inl e)
  then show ?thesis using o by (simp add: reply_to_def d)
next
  case (Inr c)
  have c': "choice (characters cfg) (m_draw m') = Inr c" using Inr d by simp
  show ?thesis
  proof (cases "m_completion m = Inl KeyboardInterrupt")
    case True
    then show ?thesis
      using o by (simp add: reply_to_def Inr c' k generate_ai_reply_def obs_deliver)
  next
    case False
    then have k': "m_completion m' \<noteq> Inl KeyboardInterrupt" using k by simp
    show ?thesis
    proof (cases "m_send m")
      case (Inl e)
      then have f': "m_send m' = Inl e" using sd by simp
      show ?thesis
        using reply_to_send_fails(1,2) [OF Inr False Inl, of a s]
          reply_to_send_fails(1,2) [OF c' k' f', of a s'] o
        by simp
    next
      case ok: (Inr u)
      then have ok1: "m_send m = Inr ()" and ok2: "m_send m' = Inr ()"
        using sd by simp_all
      obtain body fb where
        b: "choose_body (fallback_message cfg) (generated (m_completion m)) = (body, fb)"
        by (cases "choose_body (fallback_message cfg) (generated (m_completion m))") auto
      then have b': "choose_body (fallback_message cfg) (generated (m_completion m')) = (body, fb)"
        using k by simp
      note l = reply_to_sent [OF Inr False ok1 b, where a = a and s = s]
      note r = reply_to_sent [OF c' k' ok2 b', where a = a and s = s']
      show ?thesis
      proof (cases "m_write m")
        case (Inl p)
        then have w: "m_write m = Inl (fst p, snd p)"
          and w': "m_write m' = Inl (fst p, snd p)" using wr by simp_all
        show ?thesis
          using l(1,2) r(1,2)
            reply_to_sent(6-8) [OF Inr False ok1 b w, where a = a and s = s]
            reply_to_sent(6-8) [OF c' k' ok2 b' w', where a = a and s = s']
            obs_eqD [OF o]
          by (simp add: obs_def)
      next
        case (Inr v)
        then have w: "m_write m = Inr ()" and w': "m_write m' = Inr ()"
          using wr by simp_all
        show ?thesis
          using l(1,2) r(1,2) l(3-5) [OF w] r(3-5) [OF w'] obs_eqD [OF o] nw
          by (simp add: obs_def)
      qed
    qed
  qed
qed

lemma process_candidate_rel:
  assumes o: "obs s' = obs s"
  shows "fst (process_candidate cfg (without_signals m) s') = fst (process_candidate cfg m s)
       \<and> obs (snd (process_candidate cfg (without_signals m) s'))
           = obs (snd (process_candidate cfg m s))"
proof (cases "m_fetch m")
  case (Inl e)
  then show ?thesis
    using o by (simp add: process_candidate_def Let_def without_signals_def obs_deliver)
next
  case (Inr headers)
  let ?s1 = "deliver (DuringFetch \<in> set (m_signals m)) s"
  have o1: "obs s' = obs ?s1" using o by (simp add: obs_deliver)
  show ?thesis
  proof (cases "skipped cfg (get_sender (parseaddr cfg) headers) s")
    case True
    then have T': "skipped cfg (get_sender (parseaddr cfg) headers) s'"
      using skipped_obs [OF o] by simp
    have l: "process_candidate cfg m s = (None, ?s1)"
      using True by (simp add: process_candidate_def Let_def Inr skipped_deliver)
    have r: "process_candidate cfg (without_signals m) s' = (None, s')"
      using T' by (simp add: process_candidate_def Let_def Inr without_signals_def deliver_def)
    show ?thesis
      by (simp add: l r o1)
  next
    case False
    then have F': "\<not> skipped cfg (get_sender (parseaddr cfg) headers) s'"
      using skipped_obs [OF o] by simp
    have l: "process_candidate cfg m s = reply_to cfg m (the (get_sender (parseaddr cfg) headers)) ?s1"
      using False by (simp add: process_candidate_def Let_def Inr skipped_deliver)
    have r: "process_candidate cfg (without_signals m) s'
        = reply_to cfg (without_signals m) (the (get_sender (parseaddr cfg) headers)) s'"
      using F' by (simp add: process_candidate_def Let_def Inr without_signals_def deliver_def)
    show ?thesis
      unfolding l r
      by (rule reply_to_rel [OF o1]) (simp_all add: without_signals_def)
  qed
qed

lemma process_messages_rel:
  "obs s' = obs s \<Longrightarrow>
   fst (process_messages cfg (map without_signals ms) s') = fst (process_messages cfg ms s)
     \<and> obs (snd (process_messages cfg (map without_signals ms) s'))
         = obs (snd (process_messages cfg ms s))"
proof (induction ms arbitrary: s s')
  case Nil
  then show ?case by simp
next
  case (Cons m ms)
  obtain x t where p: "process_candidate cfg m s = (x, t)"
    by (cases "process_candidate cfg m s") auto
  obtain x' t' where p': "process_candidate cfg (without_signals m) s' = (x', t')"
    by (cases "process_candidate cfg (without_signals m) s'") auto
  from process_candidate_rel [OF Cons.prems, of cfg m] p p'
  have x: "x' = x" and t: "obs t' = obs t" by simp_all
  show ?case
  proof (cases x)
    case None
    with p p' x Cons.IH [OF t] show ?thesis by simp
  next
    case (Some e)
    with p p' x t show ?thesis by simp
  qed
qed

text \<open>The flag, once set, stays set.\<close>

lemma record_reply_flag:
  "shutdown_requested s \<Longrightarrow> shutdown_requested (snd (record_reply m a c fb s))"
  by (cases "m_write m")
    (simp_all add: record_reply_def Let_def save_replied_sender_def emit_fields deliver_fields
      split: prod.splits)

lemma reply_to_flag:
  "shutdown_requested s \<Longrightarrow> shutdown_requested (snd (reply_to cfg m a s))"
proof (cases "choice (characters cfg) (m_draw m)")
  case (Inl e)
  then show "shutdown_requested s \<Longrightarrow> ?thesis" by (simp add: reply_to_def)
next
  case (Inr c)
  assume fl: "shutdown_requested s"
  let ?s1 = "deliver (DuringGenerate \<in> set (m_signals m)) s"
  obtain r g where g: "generate_ai_reply (m_completion m) ?s1 = (r, g)"
    by (cases "generate_ai_reply (m_completion m) ?s1") auto
  have gf: "shutdown_requested g"
    using generate_ai_reply_fields(4) [of "m_completion m" ?s1] g fl
    by (simp add: deliver_fields)
  show ?thesis
  proof (cases r)
    case (Inl e)
    then show ?thesis using gf by (simp add: reply_to_def Inr g)
  next
    case ai: (Inr ai_reply)
    obtain body fb where b: "choose_body (fallback_message cfg) ai_reply = (body, fb)"
      by (cases "choose_body (fallback_message cfg) ai_reply") auto
    show ?thesis
    proof (cases "m_send m")
      case (Inl e)
      then show ?thesis
        using gf by (simp add: reply_to_def Inr g ai b send_reply_def deliver_fields)
    next
      case ok: (Inr u)
      have "shutdown_requested (emit (Sent (reply_message a ''Automated Reply'' body c))
              (deliver (DuringSend \<in> set (m_signals m)) g))"
        using gf by (simp add: emit_fields deliver_fields)
      from record_reply_flag [OF this] show ?thesis
        by (simp add: reply_to_def Inr g ai b send_reply_def ok)
    qed
  qed
qed

lemma process_candidate_flag:
  "shutdown_requested s \<Longrightarrow> shutdown_requested (snd (process_candidate cfg m s))"
  using reply_to_flag [of "deliver (DuringFetch \<in> set (m_signals m)) s" cfg m]
  by (simp add: process_candidate_def Let_def deliver_fields split: sum.splits)

lemma process_messages_flag:
  "shutdown_requested s \<Longrightarrow> shutdown_requested (snd (process_messages cfg ms s))"
proof (induction ms arbitrary: s)
  case Nil
  then show ?case by simp
next
  case (Cons m ms)
  obtain x t where p: "process_candidate cfg m s = (x, t)"
    by (cases "process_candidate cfg m s") auto
  from process_candidate_flag [OF Cons.prems, of cfg m] p have t: "shutdown_requested t"
    by simp
  show ?case
    using p t Cons.IH [OF t] by (cases x) simp_all
qed

lemma signals_nonempty:
  "(xs \<noteq> []) = (DuringFetch \<in> set xs \<or> DuringGenerate \<in> set xs
                  \<or> DuringSend \<in> set xs \<or> DuringRecord \<in> set xs)"
proof (cases xs)
  case Nil
  then show ?thesis by simp
next
  case (Cons x xs')
  then show ?thesis by (cases x) auto
qed

text \<open>
  A candidate that sent its reply and ended without an exception went through all four
  calls, so any signal that came meanwhile has set the flag.
\<close>

lemma process_candidate_recorded_flag:
  assumes n: "fst (process_candidate cfg m s) = None"
    and sent: "sent_mails (trace (snd (process_candidate cfg m s))) \<noteq> sent_mails (trace s)"
  shows "shutdown_requested (snd (process_candidate cfg m s))
           = (shutdown_requested s \<or> m_signals m \<noteq> [])"
proof (cases "m_fetch m")
  case (Inl e)
  with n show ?thesis by (simp add: process_candidate_def Let_def)
next
  case (Inr headers)
  let ?s1 = "deliver (DuringFetch \<in> set (m_signals m)) s"
  show ?thesis
  proof (cases "skipped cfg (get_sender (parseaddr cfg) headers) s")
    case True
    with sent show ?thesis
      by (simp add: process_candidate_def Let_def Inr skipped_deliver deliver_fields)
  next
    case False
    then obtain a where a: "get_sender (parseaddr cfg) headers = Some a"
      by (cases "get_sender (parseaddr cfg) headers") (auto simp: skipped_def)
    have ns: "\<not> skipped cfg (Some a) s" using False a by simp
    have eq: "process_candidate cfg m s = reply_to cfg m a ?s1"
      by (rule process_candidate_passes [OF Inr a ns])
    show ?thesis
    proof (cases "choice (characters cfg) (m_draw m)")
      case (Inl e)
      with n show ?thesis by (simp add: eq reply_to_def)
    next
      case c: (Inr c)
      show ?thesis
      proof (cases "m_completion m = Inl KeyboardInterrupt")
        case True
        with n show ?thesis by (simp add: eq reply_to_def c generate_ai_reply_def)
      next
        case k: False
        show ?thesis
        proof (cases "m_send m")
          case (Inl e)
          with n reply_to_send_fails(1) [OF c k Inl, of a ?s1] show ?thesis
            by (simp add: eq)
        next
          case ok: (Inr u)
          then have ok': "m_send m = Inr ()" by simp
          obtain body fb where
            b: "choose_body (fallback_message cfg) (generated (m_completion m)) = (body, fb)"
            by (cases "choose_body (fallback_message cfg) (generated (m_completion m))") auto
          show ?thesis
          proof (cases "m_write m")
            case (Inl p)
            then have "m_write m = Inl (fst p, snd p)" by simp
            from reply_to_sent(6) [OF c k ok' b this, where a = a and s = ?s1] n
            show ?thesis
              by (simp add: eq)
          next
            case (Inr v)
            then have w: "m_write m = Inr ()" by simp
            show ?thesis
              using reply_to_recorded_flag [OF c k ok' w, of a ?s1]
              by (auto simp: eq deliver_fields signals_nonempty [of "m_signals m"])
          qed
        qed
      qed
    qed
  qed
qed

section \<open>Fallback policy\<close>

lemma choose_body_None: "choose_body fallback None = (fallback, True)"
  by (simp add: choose_body_def)

lemma choose_body_empty: "choose_body fallback (Some []) = (fallback, True)"
  by (simp add: choose_body_def)

lemma choose_body_text: "t \<noteq> [] \<Longrightarrow> choose_body fallback (Some t) = (t, False)"
  by (simp add: choose_body_def)

text \<open>
  Two candidates that differ in the outcome of the generator only, and for which the
  loop chooses the same body and fallback mark, end alike.
\<close>

lemma same_body_same_outcome:
  assumes f: "m_fetch m = Inr headers"
    and a: "get_sender (parseaddr cfg) headers = Some a"
    and ns: "\<not> skipped cfg (Some a) s"
    and c: "choice (characters cfg) (m_draw m) = Inr c"
    and snd_ok: "m_send m = Inr ()"
    and k: "m_completion m \<noteq> Inl KeyboardInterrupt"
    and k': "k' \<noteq> Inl KeyboardInterrupt"
    and b: "choose_body (fallback_message cfg) (generated (m_completion m)) = (body, fb)"
    and b': "choose_body (fallback_message cfg) (generated k') = (body, fb)"
  shows "fst (process_candidate cfg (m\<lparr>m_completion := k'\<rparr>) s) = fst (process_candidate cfg m s)"
    and "obs (snd (process_candidate cfg (m\<lparr>m_completion := k'\<rparr>) s))
           = obs (snd (process_candidate cfg m s))"
proof -
  let ?m' = "m\<lparr>m_completion := k'\<rparr>"
  have f': "m_fetch ?m' = Inr headers" using f by simp
  have c': "choice (characters cfg) (m_draw ?m') = Inr c" using c by simp
  have kk: "m_completion ?m' \<noteq> Inl KeyboardInterrupt" using k' by simp
  have s': "m_send ?m' = Inr ()" using snd_ok by simp
  have bb: "choose_body (fallback_message cfg) (generated (m_completion ?m')) = (body, fb)"
    using b' by simp
  note l = process_candidate_sent [OF f a ns c k snd_ok b]
  note r = process_candidate_sent [OF f' a ns c' kk s' bb]
  have "fst (process_candidate cfg ?m' s) = fst (process_candidate cfg m s)
      \<and> obs (snd (process_candidate cfg ?m' s)) = obs (snd (process_candidate cfg m s))"
  proof (cases "m_write m")
    case (Inl p)
    then have w: "m_write m = Inl (fst p, snd p)"
      and w': "m_write ?m' = Inl (fst p, snd p)" by simp_all
    show ?thesis
      using l(1,2) r(1,2)
        process_candidate_sent(6-8) [OF f a ns c k snd_ok b w]
        process_candidate_sent(6-8) [OF f' a ns c' kk s' bb w']
      by (simp add: obs_def)
  next
    case (Inr v)
    then have w: "m_write m = Inr ()" and w': "m_write ?m' = Inr ()" by simp_all
    show ?thesis
      using l(1,2) r(1,2) l(3-5) [OF w] r(3-5) [OF w']
      by (simp add: obs_def)
  qed
  then show "fst (process_candidate cfg ?m' s) = fst (process_candidate cfg m s)"
    and "obs (snd (process_candidate cfg ?m' s)) = obs (snd (process_candidate cfg m s))"
    by simp_all
qed

lemma saved_file_row:
  "saved_file now a cn fb f
     = Some (append_row [a, now, csv_field cn, if fb then ''Yes'' else ''No'']
               (case f of None \<Rightarrow> ([csv_header], False) | Some c \<Rightarrow> c))"
  by (simp add: saved_file_def ledger_row_def)

text \<open>
  Claim C3, as stated, fails: \<^verbatim>\<open>send_reply\<close> appends the signature line to every
  body, so after a generation failure the body of the message sent is not the fallback
  message verbatim. In the concrete run the generator raises and the body sent is the
  fallback message followed by the signature of the persona.
\<close>

theorem fallback_body_verbatim_counterexample:
  "map mail_body (sent_mails (trace (snd (process_candidate ex_cfg
       (ex_msg ''ann@example.org'' (Inl (Exception ''down'')) (Inr ())) ex_state))))
     = [''I am away.'' @ [CHR 0x0A, CHR 0x0A] @ ''-Default.'']
   \<and> map mail_body (sent_mails (trace (snd (process_candidate ex_cfg
       (ex_msg ''ann@example.org'' (Inl (Exception ''down'')) (Inr ())) ex_state))))
     \<noteq> [fallback_message ex_cfg]"
  by code_simp

text \<open>
  Claim C3, amended. If the reply generator fails for a candidate that passes the filter
  and the send succeeds, then the body handed to \<^verbatim>\<open>send_reply\<close> is the fallback
  message verbatim and the body of the message sent is the fallback message followed by
  an empty line and the signature \<^verbatim>\<open>-<persona name>.\<close> (\<^verbatim>\<open>Automated System\<close> for a
  persona without a name); and when the append to the ledger file succeeds, the
  candidate ends without an exception and the row written for it has the fallback column
  \<^verbatim>\<open>Yes\<close>: after a terminated last line, or as the second row of a new file, it is
  the last row of the file.
\<close>

theorem generation_failure_sends_fallback:
  assumes "m_fetch m = Inr headers"
    and "get_sender (parseaddr cfg) headers = Some a"
    and "\<not> skipped cfg (Some a) s"
    and "choice (characters cfg) (m_draw m) = Inr c"
    and "m_completion m = Inl (Exception e)"
    and "m_send m = Inr ()"
  shows "sent_mails (trace (snd (process_candidate cfg m s)))
        = sent_mails (trace s) @ [reply_message a ''Automated Reply'' (fallback_message cfg) c]
    \<and> mail_body (reply_message a ''Automated Reply'' (fallback_message cfg) c)
        = fallback_message cfg @ [CHR 0x0A, CHR 0x0A] @ ''-''
            @ (case name c of None \<Rightarrow> ''Automated System'' | Some n \<Rightarrow> n) @ ''.''
    \<and> (m_write m = Inr () \<longrightarrow>
         fst (process_candidate cfg m s) = None
         \<and> written_rows (trace (snd (process_candidate cfg m s)))
             = written_rows (trace s) @ [[a, m_now m, csv_field (name c), ''Yes'']]
         \<and> replied_senders_csv (snd (process_candidate cfg m s))
             = Some (append_row [a, m_now m, csv_field (name c), ''Yes'']
                       (case replied_senders_csv s of
                          None \<Rightarrow> ([csv_header], False) | Some f \<Rightarrow> f)))"
proof -
  have k: "m_completion m \<noteq> Inl KeyboardInterrupt"
    using assms(5) by simp
  have b: "choose_body (fallback_message cfg) (generated (m_completion m))
             = (fallback_message cfg, True)"
    using assms(5) by (simp add: generated_def choose_body_None)
  note r = process_candidate_sent [OF assms(1) assms(2) assms(3) assms(4) k assms(6) b]
  show ?thesis
    using r(1) r(3-5) by (simp add: reply_message_def saved_file_row ledger_row_def)
qed

theorem generation_failure_sends_fallback_witness:
  "sent_mails (trace (snd (process_candidate ex_cfg
          (ex_msg ''ann@example.org'' (Inl (Exception ''down'')) (Inr ())) ex_state)))
       = [reply_message ''ann@example.org'' ''Automated Reply'' ''I am away.''
            default_character]
   \<and> fst (process_candidate ex_cfg
          (ex_msg ''ann@example.org'' (Inl (Exception ''down'')) (Inr ())) ex_state) = None
   \<and> replied_senders_csv (snd (process_candidate ex_cfg
          (ex_msg ''ann@example.org'' (Inl (Exception ''down'')) (Inr ())) ex_state))
       = Some ([csv_header,
                [''ann@example.org'', ''2024-01-01T00:00:00+00:00'', ''Default'', ''Yes'']],
               False)"
proof -
  let ?m = "ex_msg ''ann@example.org'' (Inl (Exception ''down'')) (Inr ())"
  have 1: "m_fetch ?m = Inr [(''Subject'', ''Lunch''), (''From'', ''ann@example.org'')]"
    by (simp add: ex_msg_def)
  have 2: "get_sender (parseaddr ex_cfg) [(''Subject'', ''Lunch''), (''From'', ''ann@example.org'')]
             = Some ''ann@example.org''"
    by code_simp
  have 3: "\<not> skipped ex_cfg (Some ''ann@example.org'') ex_state"
    by (simp add: skipped_def ex_cfg_def ex_state_def)
  have 4: "choice (characters ex_cfg) (m_draw ?m) = Inr default_character"
    by (simp add: choice_def ex_cfg_def ex_msg_def)
  have 5: "m_completion ?m = Inl (Exception ''down'')"
    by (simp add: ex_msg_def)
  have 6: "m_send ?m = Inr ()"
    by (simp add: ex_msg_def)
  have 7: "m_write ?m = Inr ()"
    by (simp add: ex_msg_def)
  show ?thesis
    using generation_failure_sends_fallback [OF 1 2 3 4 5 6] 7
    by (simp add: ex_state_def ex_cfg_def ex_msg_def csv_field_def default_character_def
        append_row_def)
qed

text \<open>
  Claim C4, as stated, fails twice. The generator returns \<^verbatim>\<open>Hi\<close> and the body of
  the message sent is \<^verbatim>\<open>Hi\<close> followed by the signature, not the generator's output;
  the generator returns a blank text without failing, and the row appended to the
  ledger has the fallback column \<^verbatim>\<open>Yes\<close>.
\<close>

theorem generated_body_counterexample:
  "map mail_body (sent_mails (trace (snd (process_candidate ex_cfg
       (ex_msg ''ann@example.org'' (Inr ''Hi'') (Inr ())) ex_state))))
     \<noteq> [''Hi'']
   \<and> fst (generate_ai_reply (Inr ''  '') ex_state) = Inr (Some [])
   \<and> replied_senders_csv (snd (process_candidate ex_cfg
       (ex_msg ''ann@example.org'' (Inr ''  '') (Inr ())) ex_state))
     = Some ([csv_header,
              [''ann@example.org'', ''2024-01-01T00:00:00+00:00'', ''Default'', ''Yes'']],
             False)"
  by code_simp

text \<open>
  Claim C4, amended. If the text generator returns a text that is not empty after
  stripping, for a candidate that passes the filter and whose send succeeds, then the
  body handed to \<^verbatim>\<open>send_reply\<close> is the stripped text and the body of the message sent
  is the stripped text followed by an empty line and the signature
  \<^verbatim>\<open>-<persona name>.\<close>; and when the append to the ledger file succeeds, the
  candidate ends without an exception and the row written for it has the fallback column
  \<^verbatim>\<open>No\<close>.
\<close>

theorem generated_reply_sent_with_signature:
  assumes "m_fetch m = Inr headers"
    and "get_sender (parseaddr cfg) headers = Some a"
    and "\<not> skipped cfg (Some a) s"
    and "choice (characters cfg) (m_draw m) = Inr c"
    and "m_completion m = Inr content"
    and "strip content \<noteq> []"
    and "m_send m = Inr ()"
  shows "sent_mails (trace (snd (process_candidate cfg m s)))
        = sent_mails (trace s) @ [reply_message a ''Automated Reply'' (strip content) c]
    \<and> mail_body (reply_message a ''Automated Reply'' (strip content) c)
        = strip content @ [CHR 0x0A, CHR 0x0A] @ ''-''
            @ (case name c of None \<Rightarrow> ''Automated System'' | Some n \<Rightarrow> n) @ ''.''
    \<and> (m_write m = Inr () \<longrightarrow>
         fst (process_candidate cfg m s) = None
         \<and> written_rows (trace (snd (process_candidate cfg m s)))
             = written_rows (trace s) @ [[a, m_now m, csv_field (name c), ''No'']]
         \<and> replied_senders_csv (snd (process_candidate cfg m s))
             = Some (append_row [a, m_now m, csv_field (name c), ''No'']
                       (case replied_senders_csv s of
                          None \<Rightarrow> ([csv_header], False) | Some f \<Rightarrow> f)))"
proof -
  have k: "m_completion m \<noteq> Inl KeyboardInterrupt"
    using assms(5) by simp
  have b: "choose_body (fallback_message cfg) (generated (m_completion m))
             = (strip content, False)"
    using assms(5) assms(6) by (simp add: generated_def choose_body_text)
  note r = process_candidate_sent [OF assms(1) assms(2) assms(3) assms(4) k assms(7) b]
  show ?thesis
    using r(1) r(3-5) by (simp add: reply_message_def saved_file_row ledger_row_def)
qed

theorem generated_reply_sent_with_signature_witness:
  "map mail_body (sent_mails (trace (snd (process_candidate ex_cfg
          (ex_msg ''ann@example.org'' (Inr '' Hi '') (Inr ())) ex_state))))
       = [''Hi'' @ [CHR 0x0A, CHR 0x0A] @ ''-Default.'']
   \<and> fst (process_candidate ex_cfg
          (ex_msg ''ann@example.org'' (Inr '' Hi '') (Inr ())) ex_state) = None
   \<and> replied_senders_csv (snd (process_candidate ex_cfg
          (ex_msg ''ann@example.org'' (Inr '' Hi '') (Inr ())) ex_state))
       = Some ([csv_header,
                [''ann@example.org'', ''2024-01-01T00:00:00+00:00'', ''Default'', ''No'']],
               False)"
proof -
  let ?m = "ex_msg ''ann@example.org'' (Inr '' Hi '') (Inr ())"
  have 1: "m_fetch ?m = Inr [(''Subject'', ''Lunch''), (''From'', ''ann@example.org'')]"
    by (simp add: ex_msg_def)
  have 2: "get_sender (parseaddr ex_cfg) [(''Subject'', ''Lunch''), (''From'', ''ann@example.org'')]
             = Some ''ann@example.org''"
    by code_simp
  have 3: "\<not> skipped ex_cfg (Some ''ann@example.org'') ex_state"
    by (simp add: skipped_def ex_cfg_def ex_state_def)
  have 4: "choice (characters ex_cfg) (m_draw ?m) = Inr default_character"
    by (simp add: choice_def ex_cfg_def ex_msg_def)
  have 5: "m_completion ?m = Inr '' Hi ''"
    by (simp add: ex_msg_def)
  have 6: "strip '' Hi '' = ''Hi''"
    by code_simp
  have 7: "strip '' Hi '' \<noteq> []"
    by (simp add: 6)
  have 8: "m_send ?m = Inr ()"
    by (simp add: ex_msg_def)
  have 9: "m_write ?m = Inr ()"
    by (simp add: ex_msg_def)
  show ?thesis
    using generated_reply_sent_with_signature [OF 1 2 3 4 5 7 8] 9
    by (simp add: 6 ex_state_def ex_cfg_def ex_msg_def csv_field_def default_character_def
        reply_message_def append_row_def)
qed

text \<open>
  Claim C10. If the text-generation call returns, without failing, a text that is empty
  after stripping, the loop handles the candidate as it handles a generation failure:
  the fallback message is the reply body handed to \<^verbatim>\<open>send_reply\<close>; when the append to
  the ledger file succeeds, the row written for the candidate has the fallback column
  \<^verbatim>\<open>Yes\<close>; and the outcome, the messages sent, the set of replied senders, the
  ledger file and the rows written are those of the same candidate with a failing
  generator.
\<close>

theorem empty_completion_treated_as_failure:
  assumes "m_fetch m = Inr headers"
    and "get_sender (parseaddr cfg) headers = Some a"
    and "\<not> skipped cfg (Some a) s"
    and "choice (characters cfg) (m_draw m) = Inr c"
    and "m_completion m = Inr content"
    and "strip content = []"
    and "m_send m = Inr ()"
  shows "sent_mails (trace (snd (process_candidate cfg m s)))
        = sent_mails (trace s) @ [reply_message a ''Automated Reply'' (fallback_message cfg) c]
    \<and> (m_write m = Inr () \<longrightarrow>
         fst (process_candidate cfg m s) = None
         \<and> written_rows (trace (snd (process_candidate cfg m s)))
             = written_rows (trace s) @ [[a, m_now m, csv_field (name c), ''Yes'']]
         \<and> replied_senders_csv (snd (process_candidate cfg m s))
             = Some (append_row [a, m_now m, csv_field (name c), ''Yes'']
                       (case replied_senders_csv s of
                          None \<Rightarrow> ([csv_header], False) | Some f \<Rightarrow> f)))
    \<and> fst (process_candidate cfg (m\<lparr>m_completion := Inl (Exception e)\<rparr>) s)
        = fst (process_candidate cfg m s)
    \<and> sent_mails (trace (snd (process_candidate cfg (m\<lparr>m_completion := Inl (Exception e)\<rparr>) s)))
        = sent_mails (trace (snd (process_candidate cfg m s)))
    \<and> replied_senders (snd (process_candidate cfg (m\<lparr>m_completion := Inl (Exception e)\<rparr>) s))
        = replied_senders (snd (process_candidate cfg m s))
    \<and> replied_senders_csv (snd (process_candidate cfg (m\<lparr>m_completion := Inl (Exception e)\<rparr>) s))
        = replied_senders_csv (snd (process_candidate cfg m s))
    \<and> written_rows (trace (snd (process_candidate cfg (m\<lparr>m_completion := Inl (Exception e)\<rparr>) s)))
        = written_rows (trace (snd (process_candidate cfg m s)))"
proof -
  have k: "m_completion m \<noteq> Inl KeyboardInterrupt"
    using assms(5) by simp
  have k': "(Inl (Exception e) :: exn + string) \<noteq> Inl KeyboardInterrupt"
    by simp
  have b: "choose_body (fallback_message cfg) (generated (m_completion m))
             = (fallback_message cfg, True)"
    using assms(5) assms(6) by (simp add: generated_def choose_body_empty)
  have b': "choose_body (fallback_message cfg) (generated (Inl (Exception e)))
             = (fallback_message cfg, True)"
    by (simp add: generated_def choose_body_None)
  note r = process_candidate_sent [OF assms(1) assms(2) assms(3) assms(4) k assms(7) b]
  note same = same_body_same_outcome
    [OF assms(1) assms(2) assms(3) assms(4) assms(7) k k' b b']
  have 1: "sent_mails (trace (snd (process_candidate cfg m s)))
        = sent_mails (trace s) @ [reply_message a ''Automated Reply'' (fallback_message cfg) c]"
    by (rule r(1))
  have 2: "m_write m = Inr () \<longrightarrow>
         fst (process_candidate cfg m s) = None
         \<and> written_rows (trace (snd (process_candidate cfg m s)))
             = written_rows (trace s) @ [[a, m_now m, csv_field (name c), ''Yes'']]
         \<and> replied_senders_csv (snd (process_candidate cfg m s))
             = Some (append_row [a, m_now m, csv_field (name c), ''Yes'']
                       (case replied_senders_csv s of
                          None \<Rightarrow> ([csv_header], False) | Some f \<Rightarrow> f))"
    using r(3-5) by (simp add: saved_file_row ledger_row_def)
  from 1 2 same(1) obs_eqD [OF same(2)] show ?thesis
    by simp
qed

theorem empty_completion_treated_as_failure_witness:
  "map mail_body (sent_mails (trace (snd (process_candidate ex_cfg
          (ex_msg ''ann@example.org'' (Inr ''  '') (Inr ())) ex_state))))
       = [''I am away.'' @ [CHR 0x0A, CHR 0x0A] @ ''-Default.'']
   \<and> fst (process_candidate ex_cfg
          (ex_msg ''ann@example.org'' (Inr ''  '') (Inr ())) ex_state) = None
   \<and> replied_senders_csv (snd (process_candidate ex_cfg
          (ex_msg ''ann@example.org'' (Inr ''  '') (Inr ())) ex_state))
       = Some ([csv_header,
                [''ann@example.org'', ''2024-01-01T00:00:00+00:00'', ''Default'', ''Yes'']],
               False)"
proof -
  let ?m = "ex_msg ''ann@example.org'' (Inr ''  '') (Inr ())"
  have 1: "m_fetch ?m = Inr [(''Subject'', ''Lunch''), (''From'', ''ann@example.org'')]"
    by (simp add: ex_msg_def)
  have 2: "get_sender (parseaddr ex_cfg) [(''Subject'', ''Lunch''), (''From'', ''ann@example.org'')]
             = Some ''ann@example.org''"
    by code_simp
  have 3: "\<not> skipped ex_cfg (Some ''ann@example.org'') ex_state"
    by (simp add: skipped_def ex_cfg_def ex_state_def)
  have 4: "choice (characters ex_cfg) (m_draw ?m) = Inr default_character"
    by (simp add: choice_def ex_cfg_def ex_msg_def)
  have 5: "m_completion ?m = Inr ''  ''"
    by (simp add: ex_msg_def)
  have 6: "strip ''  '' = []"
    by code_simp
  have 7: "m_send ?m = Inr ()"
    by (simp add: ex_msg_def)
  have 8: "m_write ?m = Inr ()"
    by (simp add: ex_msg_def)
  show ?thesis
    using empty_completion_treated_as_failure [OF 1 2 3 4 5 6 7, of "''down''"] 8
    by (simp add: ex_state_def ex_cfg_def ex_msg_def csv_field_def default_character_def
        reply_message_def append_row_def)
qed

section \<open>The subject of a reply\<close>

lemma sent_mails_of_obs: "sent_mails (trace s) = fst (snd (snd (obs s)))"
  by (simp add: obs_def)

text \<open>
  Claim C6, as stated, fails: \<^verbatim>\<open>main\<close> hands the constant \<^verbatim>\<open>Automated Reply\<close> to
  \<^verbatim>\<open>send_reply\<close> and never reads the subject of the received message. For the
  message with the subject \<^verbatim>\<open>Lunch\<close> the reply's subject is not
  \<^verbatim>\<open>Re: Lunch - OOO Automated Reply\<close>.
\<close>

theorem reply_subject_counterexample:
  "original_subject [(''Subject'', ''Lunch''), (''From'', ''ann@example.org'')] = Some ''Lunch''
   \<and> m_fetch (ex_msg ''ann@example.org'' (Inr ''Hi'') (Inr ()))
       = Inr [(''Subject'', ''Lunch''), (''From'', ''ann@example.org'')]
   \<and> map mail_subject (sent_mails (trace (snd (process_candidate ex_cfg
         (ex_msg ''ann@example.org'' (Inr ''Hi'') (Inr ())) ex_state))))
       = [''Re: Automated Reply - OOO Automated Reply'']
   \<and> map mail_subject (sent_mails (trace (snd (process_candidate ex_cfg
         (ex_msg ''ann@example.org'' (Inr ''Hi'') (Inr ())) ex_state))))
       \<noteq> [''Re: '' @ ''Lunch'' @ '' - OOO Automated Reply'']"
  by code_simp

text \<open>
  Claim C6, amended. \<^verbatim>\<open>send_reply\<close> sends the subject it is given between \<^verbatim>\<open>Re: \<close>
  and \<^verbatim>\<open> - OOO Automated Reply\<close>, and the loop gives it the constant
  \<^verbatim>\<open>Automated Reply\<close>: every reply that the processing of a candidate sends has the
  subject \<^verbatim>\<open>Re: Automated Reply - OOO Automated Reply\<close>, whatever the subject of the
  received message.
\<close>

theorem reply_subject_is_constant:
  "mail_subject (reply_message to_email subject body c)
     = ''Re: '' @ subject @ '' - OOO Automated Reply''
   \<and> (\<exists>new. sent_mails (trace (snd (process_candidate cfg m s))) = sent_mails (trace s) @ new
        \<and> (\<forall>x\<in>set new. mail_subject x = ''Re: Automated Reply - OOO Automated Reply''))"
proof
  show "mail_subject (reply_message to_email subject body c)
     = ''Re: '' @ subject @ '' - OOO Automated Reply''"
    by (simp add: reply_message_def)
next
  from process_candidate_effect [of cfg m s]
  consider "obs (snd (process_candidate cfg m s)) = obs s"
    | a where "recorded m a s (process_candidate cfg m s)"
    | a where "unrecorded m a s (process_candidate cfg m s)"
    by blast
  then show "\<exists>new. sent_mails (trace (snd (process_candidate cfg m s))) = sent_mails (trace s) @ new
        \<and> (\<forall>x\<in>set new. mail_subject x = ''Re: Automated Reply - OOO Automated Reply'')"
  proof cases
    case 1
    then have "sent_mails (trace (snd (process_candidate cfg m s))) = sent_mails (trace s) @ []"
      by (simp add: sent_mails_of_obs)
    then show ?thesis by (intro exI [of _ "[]"]) simp
  next
    case 2
    then obtain body c where
      "sent_mails (trace (snd (process_candidate cfg m s)))
         = sent_mails (trace s) @ [reply_message a ''Automated Reply'' body c]"
      by (auto simp: recorded_def sent_mails_of_obs)
    then show ?thesis
      by (intro exI [of _ "[reply_message a ''Automated Reply'' body c]"])
        (simp add: reply_message_def)
  next
    case 3
    then obtain body c where
      "sent_mails (trace (snd (process_candidate cfg m s)))
         = sent_mails (trace s) @ [reply_message a ''Automated Reply'' body c]"
      by (auto simp: unrecorded_def sent_mails_of_obs)
    then show ?thesis
      by (intro exI [of _ "[reply_message a ''Automated Reply'' body c]"])
        (simp add: reply_message_def)
  qed
qed

theorem reply_subject_is_constant_witness:
  "map mail_subject (sent_mails (trace (snd (process_candidate ex_cfg
       (ex_msg ''ann@example.org'' (Inr ''Hi'') (Inr ())) ex_state))))
     = [''Re: Automated Reply - OOO Automated Reply'']"
proof -
  let ?m = "ex_msg ''ann@example.org'' (Inr ''Hi'') (Inr ())"
  from reply_subject_is_constant [of "[]" "[]" "[]" default_character ex_cfg ?m ex_state]
  obtain new where n: "sent_mails (trace (snd (process_candidate ex_cfg ?m ex_state)))
        = sent_mails (trace ex_state) @ new"
    and sub: "\<forall>x\<in>set new. mail_subject x = ''Re: Automated Reply - OOO Automated Reply''"
    by blast
  have len: "length (sent_mails (trace (snd (process_candidate ex_cfg ?m ex_state)))) = 1"
    by code_simp
  have "sent_mails (trace ex_state) = []"
    by (simp add: ex_state_def)
  with n len obtain x where "new = [x]"
    by (cases new) auto
  with n sub \<open>sent_mails (trace ex_state) = []\<close> show ?thesis
    by simp
qed

section \<open>Failures inside an iteration\<close>

lemma process_candidate_send_fails:
  assumes f: "m_fetch m = Inr headers"
    and a: "get_sender (parseaddr cfg) headers = Some a"
    and ns: "\<not> skipped cfg (Some a) s"
    and c: "choice (characters cfg) (m_draw m) = Inr c"
    and k: "m_completion m \<noteq> Inl KeyboardInterrupt"
    and fl: "m_send m = Inl e"
  shows "fst (process_candidate cfg m s) = Some e"
    and "obs (snd (process_candidate cfg m s)) = obs s"
    and "shutdown_requested (snd (process_candidate cfg m s))
           = (shutdown_requested s \<or> DuringFetch \<in> set (m_signals m)
                \<or> DuringGenerate \<in> set (m_signals m) \<or> DuringSend \<in> set (m_signals m))"
  using reply_to_send_fails [OF c k fl, of a "deliver (DuringFetch \<in> set (m_signals m)) s"]
  by (auto simp: process_candidate_passes [OF f a ns] obs_deliver deliver_fields)

lemma iteration_send_fails:
  assumes r: "i_results env = Inr (Some (pre @ m # rest))"
    and p: "process_messages cfg pre (emit LogChecked (deliver (i_sig_poll env) s)) = (None, s2)"
    and e: "fst (process_candidate cfg m s2) = Some (Exception e)"
  shows "iteration cfg env s
           = deliver (i_sig_err env) (emit (Sleep 5) (emit (LogRuntimeError (Exception e))
               (snd (process_candidate cfg m s2))))"
proof -
  have "process_messages cfg (pre @ m # rest) (emit LogChecked (deliver (i_sig_poll env) s))
          = (Some (Exception e), snd (process_candidate cfg m s2))"
    using process_messages_append [OF p, of "m # rest"] process_messages_raises [OF e, of rest]
    by simp
  then have "try_body cfg env s = (Some (Exception e), snd (process_candidate cfg m s2))"
    by (simp add: try_body_listed [OF r])
  then show ?thesis by (rule iteration_raised)
qed

text \<open>
  Claim C2, as stated, fails in its last part: the exception of a failing send leaves
  the \<^verbatim>\<open>for\<close> loop and is caught by the handler of the \<^verbatim>\<open>while\<close> body, so the
  candidates after it are not processed in that iteration. With a failing send to
  \<^verbatim>\<open>ann@example.org\<close> before a sound message of \<^verbatim>\<open>bob@example.org\<close>, nothing is
  sent to \<^verbatim>\<open>bob@example.org\<close>, who is replied to when his message comes alone.
\<close>

theorem send_failure_continues_counterexample:
  "map mail_to (sent_mails (trace (iteration ex_cfg
       (ex_iter (Inr (Some [ex_msg ''ann@example.org'' (Inr ''Hi'') (Inl (Exception ''refused'')),
                             ex_msg ''bob@example.org'' (Inr ''Hi'') (Inr ())])))
       ex_state))) = []
   \<and> map mail_to (sent_mails (trace (iteration ex_cfg
       (ex_iter (Inr (Some [ex_msg ''bob@example.org'' (Inr ''Hi'') (Inr ())])))
       ex_state))) = [''bob@example.org'']"
  by code_simp

text \<open>
  Claim C2, amended. For a candidate whose send fails with an exception other than
  \<^verbatim>\<open>KeyboardInterrupt\<close>, no ledger record is written (the set of replied senders and
  the ledger file stay as they were, and nothing is sent), the failure is logged as a
  runtime error, the candidates after it are not processed in that iteration (the
  iteration ends the same whatever follows the candidate), and after a sleep of five
  seconds the loop goes on with its next iteration: the failure does not set the
  shutdown flag and does not end the process.
\<close>

theorem send_failure_abandons_iteration:
  assumes "i_results env = Inr (Some (pre @ m # rest))"
    and "process_messages cfg pre (emit LogChecked (deliver (i_sig_poll env) s)) = (None, s2)"
    and "m_fetch m = Inr headers"
    and "get_sender (parseaddr cfg) headers = Some a"
    and "\<not> skipped cfg (Some a) s2"
    and "choice (characters cfg) (m_draw m) = Inr c"
    and "m_completion m \<noteq> Inl KeyboardInterrupt"
    and "m_send m = Inl (Exception e)"
  shows "iteration cfg env s
           = deliver (i_sig_err env) (emit (Sleep 5) (emit (LogRuntimeError (Exception e))
               (snd (process_candidate cfg m s2))))
    \<and> replied_senders (iteration cfg env s) = replied_senders s2
    \<and> replied_senders_csv (iteration cfg env s) = replied_senders_csv s2
    \<and> sent_mails (trace (iteration cfg env s)) = sent_mails (trace s2)
    \<and> iteration cfg (env\<lparr>i_results := Inr (Some (pre @ m # rest'))\<rparr>) s = iteration cfg env s
    \<and> shutdown_requested (iteration cfg env s)
        = (shutdown_requested s2 \<or> DuringFetch \<in> set (m_signals m)
             \<or> DuringGenerate \<in> set (m_signals m) \<or> DuringSend \<in> set (m_signals m)
             \<or> i_sig_err env)
    \<and> (\<not> shutdown_requested s \<longrightarrow>
          main_loop cfg (env # envs) s = main_loop cfg envs (iteration cfg env s))"
proof -
  note pc = process_candidate_send_fails
    [OF assms(3) assms(4) assms(5) assms(6) assms(7) assms(8)]
  let ?s3 = "snd (process_candidate cfg m s2)"
  have it: "iteration cfg env s
      = deliver (i_sig_err env) (emit (Sleep 5) (emit (LogRuntimeError (Exception e)) ?s3))"
    by (rule iteration_send_fails [OF assms(1) assms(2) pc(1)])
  let ?env' = "env\<lparr>i_results := Inr (Some (pre @ m # rest'))\<rparr>"
  have r': "i_results ?env' = Inr (Some (pre @ m # rest'))" by simp
  have p': "process_messages cfg pre (emit LogChecked (deliver (i_sig_poll ?env') s)) = (None, s2)"
    using assms(2) by simp
  have it': "iteration cfg ?env' s = iteration cfg env s"
    using iteration_send_fails [OF r' p' pc(1)] by (simp add: it)
  have o: "replied_senders ?s3 = replied_senders s2"
    "replied_senders_csv ?s3 = replied_senders_csv s2"
    "sent_mails (trace ?s3) = sent_mails (trace s2)"
    using obs_eqD [OF pc(2)] by simp_all
  have 1: "replied_senders (iteration cfg env s) = replied_senders s2"
    by (simp add: it deliver_fields emit_fields o)
  have 2: "replied_senders_csv (iteration cfg env s) = replied_senders_csv s2"
    by (simp add: it deliver_fields emit_fields o)
  have 3: "sent_mails (trace (iteration cfg env s)) = sent_mails (trace s2)"
    by (simp add: it deliver_fields emit_fields sent_mails_append o)
  have 4: "shutdown_requested (iteration cfg env s)
        = (shutdown_requested s2 \<or> DuringFetch \<in> set (m_signals m)
             \<or> DuringGenerate \<in> set (m_signals m) \<or> DuringSend \<in> set (m_signals m)
             \<or> i_sig_err env)"
    by (auto simp: it deliver_fields emit_fields pc(3))
  have 5: "\<not> shutdown_requested s \<longrightarrow>
          main_loop cfg (env # envs) s = main_loop cfg envs (iteration cfg env s)"
    by simp
  from it 1 2 3 it' 4 5 show ?thesis by blast
qed

theorem send_failure_abandons_iteration_witness:
  "sent_mails (trace (iteration ex_cfg
       (ex_iter (Inr (Some [ex_msg ''ann@example.org'' (Inr ''Hi'') (Inl (Exception ''refused'')),
                             ex_msg ''bob@example.org'' (Inr ''Hi'') (Inr ())])))
       ex_state)) = []
   \<and> replied_senders_csv (iteration ex_cfg
       (ex_iter (Inr (Some [ex_msg ''ann@example.org'' (Inr ''Hi'') (Inl (Exception ''refused'')),
                             ex_msg ''bob@example.org'' (Inr ''Hi'') (Inr ())])))
       ex_state) = None
   \<and> \<not> shutdown_requested (iteration ex_cfg
       (ex_iter (Inr (Some [ex_msg ''ann@example.org'' (Inr ''Hi'') (Inl (Exception ''refused'')),
                             ex_msg ''bob@example.org'' (Inr ''Hi'') (Inr ())])))
       ex_state)"
proof -
  let ?m = "ex_msg ''ann@example.org'' (Inr ''Hi'') (Inl (Exception ''refused''))"
  let ?b = "ex_msg ''bob@example.org'' (Inr ''Hi'') (Inr ())"
  let ?env = "ex_iter (Inr (Some [?m, ?b]))"
  let ?s2 = "emit LogChecked (deliver (i_sig_poll ?env) ex_state)"
  have 1: "i_results ?env = Inr (Some ([] @ ?m # [?b]))"
    by (simp add: ex_iter_def)
  have 2: "process_messages ex_cfg [] ?s2 = (None, ?s2)"
    by simp
  have 3: "m_fetch ?m = Inr [(''Subject'', ''Lunch''), (''From'', ''ann@example.org'')]"
    by (simp add: ex_msg_def)
  have 4: "get_sender (parseaddr ex_cfg) [(''Subject'', ''Lunch''), (''From'', ''ann@example.org'')]
             = Some ''ann@example.org''"
    by code_simp
  have 5: "\<not> skipped ex_cfg (Some ''ann@example.org'') ?s2"
    by (simp add: skipped_def ex_cfg_def ex_state_def emit_fields deliver_fields)
  have 6: "choice (characters ex_cfg) (m_draw ?m) = Inr default_character"
    by (simp add: choice_def ex_cfg_def ex_msg_def)
  have 7: "m_completion ?m \<noteq> Inl KeyboardInterrupt"
    by (simp add: ex_msg_def)
  have 8: "m_send ?m = Inl (Exception ''refused'')"
    by (simp add: ex_msg_def)
  note t = send_failure_abandons_iteration [OF 1 2 3 4 5 6 7 8, of "[]" "[]"]
  have s2: "sent_mails (trace ?s2) = []" "replied_senders_csv ?s2 = None"
    "\<not> shutdown_requested ?s2"
    by (simp_all add: ex_state_def ex_iter_def emit_fields deliver_fields sent_mails_append)
  have sg: "m_signals ?m = []" "\<not> i_sig_err ?env"
    by (simp_all add: ex_msg_def ex_iter_def)
  from t have a: "sent_mails (trace (iteration ex_cfg ?env ex_state)) = sent_mails (trace ?s2)"
    by blast
  from t have b: "replied_senders_csv (iteration ex_cfg ?env ex_state) = replied_senders_csv ?s2"
    by blast
  from t have c: "shutdown_requested (iteration ex_cfg ?env ex_state)
        = (shutdown_requested ?s2 \<or> DuringFetch \<in> set (m_signals ?m)
             \<or> DuringGenerate \<in> set (m_signals ?m) \<or> DuringSend \<in> set (m_signals ?m)
             \<or> i_sig_err ?env)"
    by blast
  from a b c s2 sg show ?thesis
    by simp
qed

text \<open>
  Claim C8, as stated, fails in its last part: a failing query is caught by the handler
  of the \<^verbatim>\<open>while\<close> body, which sleeps five seconds in one piece; the interruptible
  sleep of the configured interval is inside the \<^verbatim>\<open>try\<close> block and is skipped. With
  an interval of three seconds, the iteration with a failing query sleeps once for five
  seconds, where the iteration with no candidates sleeps three times one second.
\<close>

theorem query_failure_sleep_counterexample:
  "sleeps (trace (iteration ex_cfg (ex_iter (Inl (Exception ''unavailable''))) ex_state)) = [5]
   \<and> sleeps (trace (iteration ex_cfg (ex_iter (Inr (Some []))) ex_state)) = [1, 1, 1]"
  by code_simp

text \<open>
  Claim C8, amended. If the unread-message query fails with an exception other than
  \<^verbatim>\<open>KeyboardInterrupt\<close>, the failure is caught and logged as a runtime error, no
  candidate is processed in that iteration (nothing is sent, the set of replied senders
  and the ledger file are unchanged), the interruptible sleep of the configured interval
  is skipped and the loop sleeps five seconds in one piece instead, and the loop then
  goes on with its next iteration: the failure does not set the shutdown flag.
\<close>

theorem query_failure_caught:
  assumes "i_results env = Inl (Exception e)"
  shows "iteration cfg env s
           = deliver (i_sig_err env) (emit (Sleep 5) (emit (LogRuntimeError (Exception e))
               (deliver (i_sig_poll env) s)))
    \<and> replied_senders (iteration cfg env s) = replied_senders s
    \<and> replied_senders_csv (iteration cfg env s) = replied_senders_csv s
    \<and> sent_mails (trace (iteration cfg env s)) = sent_mails (trace s)
    \<and> sleeps (trace (iteration cfg env s)) = sleeps (trace s) @ [5]
    \<and> shutdown_requested (iteration cfg env s)
        = (shutdown_requested s \<or> i_sig_poll env \<or> i_sig_err env)
    \<and> (\<not> shutdown_requested s \<longrightarrow>
          main_loop cfg (env # envs) s = main_loop cfg envs (iteration cfg env s))"
proof -
  have it: "iteration cfg env s
      = deliver (i_sig_err env) (emit (Sleep 5) (emit (LogRuntimeError (Exception e))
               (deliver (i_sig_poll env) s)))"
    by (rule iteration_raised [OF try_body_query_fails [OF assms]])
  have 1: "replied_senders (iteration cfg env s) = replied_senders s"
    by (simp add: it deliver_fields emit_fields)
  have 2: "replied_senders_csv (iteration cfg env s) = replied_senders_csv s"
    by (simp add: it deliver_fields emit_fields)
  have 3: "sent_mails (trace (iteration cfg env s)) = sent_mails (trace s)"
    by (simp add: it deliver_fields emit_fields sent_mails_append)
  have 4: "sleeps (trace (iteration cfg env s)) = sleeps (trace s) @ [5]"
    by (simp add: it deliver_fields emit_fields sleeps_append)
  have 5: "shutdown_requested (iteration cfg env s)
        = (shutdown_requested s \<or> i_sig_poll env \<or> i_sig_err env)"
    by (auto simp: it deliver_fields emit_fields)
  have 6: "\<not> shutdown_requested s \<longrightarrow>
          main_loop cfg (env # envs) s = main_loop cfg envs (iteration cfg env s)"
    by simp
  from it 1 2 3 4 5 6 show ?thesis by blast
qed

theorem query_failure_caught_witness:
  "trace (iteration ex_cfg (ex_iter (Inl (Exception ''unavailable''))) ex_state)
     = [LogRuntimeError (Exception ''unavailable''), Sleep 5]
   \<and> \<not> shutdown_requested (iteration ex_cfg (ex_iter (Inl (Exception ''unavailable''))) ex_state)
   \<and> main_loop ex_cfg [ex_iter (Inl (Exception ''unavailable'')), ex_iter (Inr (Some []))] ex_state
       = main_loop ex_cfg [ex_iter (Inr (Some []))]
           (iteration ex_cfg (ex_iter (Inl (Exception ''unavailable''))) ex_state)"
proof -
  let ?env = "ex_iter (Inl (Exception ''unavailable''))"
  have 1: "i_results ?env = Inl (Exception ''unavailable'')"
    by (simp add: ex_iter_def)
  have 2: "\<not> shutdown_requested ex_state"
    by (simp add: ex_state_def)
  have 3: "i_sig_poll ?env = False" "i_sig_err ?env = False"
    by (simp_all add: ex_iter_def)
  show ?thesis
    using query_failure_caught [OF 1, of ex_cfg ex_state "[ex_iter (Inr (Some []))]"] 2 3
    by (simp add: deliver_def emit_def ex_state_def)
qed

section \<open>Loading the personas\<close>

lemma load_entries_raises:
  assumes "endswith file ''.json''"
    and "\<forall>(f, r)\<in>set pre. endswith f ''.json'' \<longrightarrow> \<not> isl r"
  shows "load_entries acc (pre @ (file, Inl e) # rest) = Inl e"
  using assms(2)
proof (induction pre arbitrary: acc)
  case Nil
  then show ?case using assms(1) by simp
next
  case (Cons p pre)
  obtain f r where p: "p = (f, r)" by (cases p) auto
  from Cons.prems have rest: "\<forall>(f, r)\<in>set pre. endswith f ''.json'' \<longrightarrow> \<not> isl r"
    by simp
  show ?case
  proof (cases "endswith f ''.json''")
    case True
    with Cons.prems p obtain c where "r = Inr c"
      by (cases r) auto
    with True p Cons.IH [OF rest] show ?thesis by simp
  next
    case False
    with p Cons.IH [OF rest] show ?thesis by simp
  qed
qed

text \<open>When every entry with the suffix loads, all of them are returned, in directory order.\<close>

lemma load_entries_all_good:
  "\<forall>(f, r)\<in>set entries. endswith f ''.json'' \<longrightarrow> \<not> isl r \<Longrightarrow>
   load_entries acc entries
     = Inr (acc @ map (projr \<circ> snd) (filter (\<lambda>(f, r). endswith f ''.json'') entries))"
proof (induction entries arbitrary: acc)
  case Nil
  then show ?case by simp
next
  case (Cons p entries)
  obtain f r where p: "p = (f, r)" by (cases p) auto
  from Cons.prems have rest: "\<forall>(f, r)\<in>set entries. endswith f ''.json'' \<longrightarrow> \<not> isl r"
    by simp
  show ?case
  proof (cases "endswith f ''.json''")
    case True
    with Cons.prems p obtain c where "r = Inr c"
      by (cases r) auto
    with True p Cons.IH [OF rest] show ?thesis by simp
  next
    case False
    with p Cons.IH [OF rest] show ?thesis by simp
  qed
qed

text \<open>
  Claim C5, as stated, fails: \<^verbatim>\<open>load_characters\<close> has no handler around
  \<^verbatim>\<open>open\<close> and \<^verbatim>\<open>json.load\<close>, and \<^verbatim>\<open>main\<close> calls it before its loop, outside
  every \<^verbatim>\<open>try\<close>. With one sound persona file and one malformed file, loading returns
  no persona but raises, and \<^verbatim>\<open>main\<close> ends with that exception after its two
  start-up lines, without a warning and without entering the loop.
\<close>

theorem malformed_persona_counterexample:
  "load_characters (Some [(''ann.json'', Inr default_character),
                          (''broken.json'', Inl (Exception ''JSONDecodeError''))])
     = Inl (Exception ''JSONDecodeError'')
   \<and> fst (main True 3 (\<lambda>v. v)
        (ex_startup (Some [(''ann.json'', Inr default_character),
                           (''broken.json'', Inl (Exception ''JSONDecodeError''))]))
        [ex_iter (Inr (Some []))] None)
     = Some (Exception ''JSONDecodeError'')
   \<and> trace (snd (main True 3 (\<lambda>v. v)
        (ex_startup (Some [(''ann.json'', Inr default_character),
                           (''broken.json'', Inl (Exception ''JSONDecodeError''))]))
        [ex_iter (Inr (Some []))] None))
     = [LogStarting, PrintStarted True]"
  by code_simp

text \<open>
  Claim C5, amended. If the persona directory has an entry with the suffix
  \<^verbatim>\<open>.json\<close> that is malformed or unreadable, persona loading does not skip it: it
  raises the exception of the first such entry, returns no persona and logs nothing,
  and \<^verbatim>\<open>main\<close>, once authenticated, ends with that exception before its loop starts,
  the ledger file untouched.
\<close>

theorem malformed_persona_aborts_startup:
  assumes "s_characters_dir st = Some (pre @ (file, Inl e) # rest)"
    and "endswith file ''.json''"
    and "\<forall>(f, r)\<in>set pre. endswith f ''.json'' \<longrightarrow> \<not> isl r"
    and "s_auth st = Inr email"
  shows "load_characters (s_characters_dir st) = Inl e
    \<and> fst (main REPLY_ONCE CHECK_INTERVAL pa st envs f) = Some e
    \<and> trace (snd (main REPLY_ONCE CHECK_INTERVAL pa st envs f))
        = [LogStarting, PrintStarted REPLY_ONCE]
    \<and> replied_senders_csv (snd (main REPLY_ONCE CHECK_INTERVAL pa st envs f)) = f"
proof -
  have l: "load_characters (s_characters_dir st) = Inl e"
    using load_entries_raises [OF assms(2) assms(3), of "[]" e rest]
    by (simp add: load_characters_def assms(1))
  have m: "main REPLY_ONCE CHECK_INTERVAL pa st envs f
      = (Some e, \<lparr>shutdown_requested = False, replied_senders = load_replied_senders f,
                  replied_senders_csv = f, trace = [LogStarting, PrintStarted REPLY_ONCE]\<rparr>)"
    by (simp add: main_def Let_def assms(4) l)
  show ?thesis by (simp add: l m)
qed

theorem malformed_persona_aborts_startup_witness:
  "load_characters (Some [(''notes.txt'', Inl (Exception ''unreadable'')),
                          (''ann.json'', Inr default_character),
                          (''broken.json'', Inl (Exception ''JSONDecodeError'')),
                          (''bob.json'', Inr default_character)])
     = Inl (Exception ''JSONDecodeError'')
   \<and> fst (main True 3 (\<lambda>v. v)
        (ex_startup (Some [(''notes.txt'', Inl (Exception ''unreadable'')),
                           (''ann.json'', Inr default_character),
                           (''broken.json'', Inl (Exception ''JSONDecodeError'')),
                           (''bob.json'', Inr default_character)]))
        [ex_iter (Inr (Some []))] None)
     = Some (Exception ''JSONDecodeError'')"
proof -
  let ?pre = "[(''notes.txt'', Inl (Exception ''unreadable'')),
               (''ann.json'', Inr default_character)]"
  let ?rest = "[(''bob.json'', Inr default_character)]"
  let ?d = "[(''notes.txt'', Inl (Exception ''unreadable'')),
             (''ann.json'', Inr default_character),
             (''broken.json'', Inl (Exception ''JSONDecodeError'')),
             (''bob.json'', Inr default_character)]"
  have 1: "s_characters_dir (ex_startup (Some ?d))
             = Some (?pre @ (''broken.json'', Inl (Exception ''JSONDecodeError'')) # ?rest)"
    by (simp add: ex_startup_def)
  have 2: "endswith ''broken.json'' ''.json''"
    by (simp add: endswith_def)
  have 3: "\<forall>(f, r)\<in>set ?pre. endswith f ''.json'' \<longrightarrow> \<not> isl r"
    by (simp add: endswith_def)
  have 4: "s_auth (ex_startup (Some ?d)) = Inr ''me@example.org''"
    by (simp add: ex_startup_def)
  have 5: "s_characters_dir (ex_startup (Some ?d)) = Some ?d"
    by (simp add: ex_startup_def)
  from malformed_persona_aborts_startup [OF 1 2 3 4, of True 3 "\<lambda>v. v" "[ex_iter (Inr (Some []))]" None]
  show ?thesis
    by (simp only: 5)
qed

section \<open>Graceful shutdown\<close>

lemma try_body_polled:
  "get_unread_messages (i_results env) (deliver (i_sig_poll env) s) = (Inr ms, s1) \<Longrightarrow>
   try_body cfg env s =
     (case process_messages cfg ms s1 of
        (Some e, s2) \<Rightarrow> (Some e, s2)
      | (None, s2) \<Rightarrow> (None, responsive_sleep (nat (check_interval cfg)) (i_ticks env) s2))"
  by (simp add: try_body_def)

lemma iteration_flag:
  "shutdown_requested (snd (try_body cfg env s)) \<Longrightarrow> shutdown_requested (iteration cfg env s)"
proof -
  assume fl: "shutdown_requested (snd (try_body cfg env s))"
  obtain x t where tb: "try_body cfg env s = (x, t)"
    by (cases "try_body cfg env s") auto
  with fl have t: "shutdown_requested t" by simp
  show ?thesis
  proof (cases x)
    case None
    with tb t show ?thesis by (simp add: iteration_def)
  next
    case (Some e)
    with tb t show ?thesis
      by (cases e) (simp_all add: iteration_def graceful_shutdown_fields deliver_fields emit_fields)
  qed
qed

lemma trace_stopped: "trace (stopped s) = trace s @ [LogStopped, PrintStopped]"
  by (simp add: stopped_def emit_fields)

lemma trace_graceful_shutdown:
  "\<not> shutdown_requested s \<Longrightarrow>
   trace (graceful_shutdown s) = trace s @ [PrintStopping, LogShutdownRequested]"
  by (simp add: graceful_shutdown_def emit_fields)

lemma sleep_phase_signal:
  assumes p: "get_unread_messages (i_results env) (deliver (i_sig_poll env) s) = (Inr ms, s1)"
    and m: "process_messages cfg ms s1 = (None, s2)"
    and fl: "\<not> shutdown_requested s2"
    and k: "k < nat (check_interval cfg)" "k < length (i_ticks env)" "i_ticks env ! k"
      "\<forall>j<k. \<not> i_ticks env ! j"
  shows "trace (main_loop cfg envs (iteration cfg env s))
           = trace s2 @ replicate (Suc k) (Sleep 1)
               @ [PrintStopping, LogShutdownRequested, LogStopped, PrintStopped]"
proof -
  let ?t = "s2\<lparr>trace := trace s2 @ replicate (Suc k) (Sleep 1)\<rparr>"
  have it: "iteration cfg env s = responsive_sleep (nat (check_interval cfg)) (i_ticks env) s2"
    by (simp add: iteration_def try_body_polled [OF p] m)
  have sl: "iteration cfg env s = graceful_shutdown ?t"
    unfolding it by (rule responsive_sleep_signal [OF fl k])
  have f: "shutdown_requested (graceful_shutdown ?t)"
    by (simp add: graceful_shutdown_fields)
  have nt: "\<not> shutdown_requested ?t" using fl by simp
  have ml: "main_loop cfg envs (iteration cfg env s) = stopped (graceful_shutdown ?t)"
    using main_loop_stops [OF f] by (simp only: sl)
  have tr: "trace (graceful_shutdown ?t)
      = (trace s2 @ replicate (Suc k) (Sleep 1)) @ [PrintStopping, LogShutdownRequested]"
    using trace_graceful_shutdown [OF nt] by simp
  show ?thesis
    by (simp only: ml trace_stopped tr) simp
qed

lemma flag_seen_after_candidates:
  assumes p: "get_unread_messages (i_results env) (deliver (i_sig_poll env) s) = (Inr ms, s1)"
    and fl: "shutdown_requested (snd (process_messages cfg ms s1))"
  shows "main_loop cfg envs (iteration cfg env s) = stopped (iteration cfg env s)"
proof -
  obtain x s2 where m: "process_messages cfg ms s1 = (x, s2)"
    by (cases "process_messages cfg ms s1") auto
  with fl have s2: "shutdown_requested s2" by simp
  have "shutdown_requested (snd (try_body cfg env s))"
    using s2 by (cases x) (simp_all add: try_body_polled [OF p] m responsive_sleep_flag_set)
  from main_loop_stops [OF iteration_flag [OF this]] show ?thesis .
qed

text \<open>
  Claim C9. Take an iteration whose query returns, with or without a list of messages,
  and whose candidates are all processed without an exception, ending in the state
  \<open>s2\<close>: this is when the sleep phase is entered. If the flag is unset then and a signal
  arrives during the \<open>k\<close>-th one-second sleep (counted from 0), the loop has slept
  \<open>k + 1\<close> times one second when it leaves the sleep phase, not the configured interval,
  and it stops without another poll: no sleep is begun after the signal. A signal that
  arrives while a candidate is processed changes nothing of what the candidate does:
  its outcome, the messages sent, the set of replied senders, the ledger file and the
  rows written are those of the same candidate without any signal, for one candidate
  and for a whole list. A candidate that sent its reply and ended without an exception
  has the flag set afterwards when a signal came meanwhile; the flag stays set through
  the remaining candidates, whatever their outcome; and the loop, finding it set after
  the candidates, stops at the end of the iteration.
\<close>

theorem shutdown_checkpoints:
  "(get_unread_messages (i_results env) (deliver (i_sig_poll env) s) = (Inr ms, s1)
      \<and> process_messages cfg ms s1 = (None, s2) \<and> \<not> shutdown_requested s2
      \<and> k < nat (check_interval cfg) \<and> k < length (i_ticks env) \<and> i_ticks env ! k
      \<and> (\<forall>j<k. \<not> i_ticks env ! j)
    \<longrightarrow> trace (main_loop cfg envs (iteration cfg env s))
          = trace s2 @ replicate (Suc k) (Sleep 1)
              @ [PrintStopping, LogShutdownRequested, LogStopped, PrintStopped])
   \<and> (get_unread_messages (i_results env) (deliver (i_sig_poll env) s) = (Inr ms, s1)
      \<and> shutdown_requested (snd (process_messages cfg ms s1))
    \<longrightarrow> main_loop cfg envs (iteration cfg env s) = stopped (iteration cfg env s))
   \<and> (\<not> shutdown_requested s
    \<longrightarrow> main_loop cfg (env # envs) s = main_loop cfg envs (iteration cfg env s))
   \<and> fst (process_candidate cfg (without_signals m) t) = fst (process_candidate cfg m t)
   \<and> replied_senders (snd (process_candidate cfg (without_signals m) t))
       = replied_senders (snd (process_candidate cfg m t))
   \<and> replied_senders_csv (snd (process_candidate cfg (without_signals m) t))
       = replied_senders_csv (snd (process_candidate cfg m t))
   \<and> sent_mails (trace (snd (process_candidate cfg (without_signals m) t)))
       = sent_mails (trace (snd (process_candidate cfg m t)))
   \<and> written_rows (trace (snd (process_candidate cfg (without_signals m) t)))
       = written_rows (trace (snd (process_candidate cfg m t)))
   \<and> fst (process_messages cfg (map without_signals ms') t) = fst (process_messages cfg ms' t)
   \<and> replied_senders (snd (process_messages cfg (map without_signals ms') t))
       = replied_senders (snd (process_messages cfg ms' t))
   \<and> replied_senders_csv (snd (process_messages cfg (map without_signals ms') t))
       = replied_senders_csv (snd (process_messages cfg ms' t))
   \<and> sent_mails (trace (snd (process_messages cfg (map without_signals ms') t)))
       = sent_mails (trace (snd (process_messages cfg ms' t)))
   \<and> written_rows (trace (snd (process_messages cfg (map without_signals ms') t)))
       = written_rows (trace (snd (process_messages cfg ms' t)))
   \<and> (fst (process_candidate cfg m t) = None
      \<and> sent_mails (trace (snd (process_candidate cfg m t))) \<noteq> sent_mails (trace t)
    \<longrightarrow> shutdown_requested (snd (process_candidate cfg m t))
          = (shutdown_requested t \<or> m_signals m \<noteq> []))
   \<and> (shutdown_requested t \<longrightarrow> shutdown_requested (snd (process_messages cfg ms' t)))"
proof -
  have 1: "get_unread_messages (i_results env) (deliver (i_sig_poll env) s) = (Inr ms, s1)
      \<and> process_messages cfg ms s1 = (None, s2) \<and> \<not> shutdown_requested s2
      \<and> k < nat (check_interval cfg) \<and> k < length (i_ticks env) \<and> i_ticks env ! k
      \<and> (\<forall>j<k. \<not> i_ticks env ! j)
    \<longrightarrow> trace (main_loop cfg envs (iteration cfg env s))
          = trace s2 @ replicate (Suc k) (Sleep 1)
              @ [PrintStopping, LogShutdownRequested, LogStopped, PrintStopped]"
    using sleep_phase_signal [of env s ms s1 cfg s2 k envs] by blast
  have 2: "get_unread_messages (i_results env) (deliver (i_sig_poll env) s) = (Inr ms, s1)
      \<and> shutdown_requested (snd (process_messages cfg ms s1))
    \<longrightarrow> main_loop cfg envs (iteration cfg env s) = stopped (iteration cfg env s)"
    using flag_seen_after_candidates [of env s ms s1 cfg envs] by blast
  have 3: "\<not> shutdown_requested s
    \<longrightarrow> main_loop cfg (env # envs) s = main_loop cfg envs (iteration cfg env s)"
    by simp
  have o: "obs t = obs t" by simp
  note c = process_candidate_rel [OF o, of cfg m]
  note l = process_messages_rel [OF o, of cfg ms']
  have 4: "fst (process_candidate cfg m t) = None
      \<and> sent_mails (trace (snd (process_candidate cfg m t))) \<noteq> sent_mails (trace t)
    \<longrightarrow> shutdown_requested (snd (process_candidate cfg m t))
          = (shutdown_requested t \<or> m_signals m \<noteq> [])"
    using process_candidate_recorded_flag [of cfg m t] by blast
  have 5: "shutdown_requested t \<longrightarrow> shutdown_requested (snd (process_messages cfg ms' t))"
    using process_messages_flag [of t cfg ms'] by blast
  from c have c1: "fst (process_candidate cfg (without_signals m) t) = fst (process_candidate cfg m t)"
    and c2: "obs (snd (process_candidate cfg (without_signals m) t))
               = obs (snd (process_candidate cfg m t))"
    by simp_all
  from l have l1: "fst (process_messages cfg (map without_signals ms') t)
                     = fst (process_messages cfg ms' t)"
    and l2: "obs (snd (process_messages cfg (map without_signals ms') t))
               = obs (snd (process_messages cfg ms' t))"
    by simp_all
  from 1 2 3 c1 obs_eqD [OF c2] l1 obs_eqD [OF l2] 4 5 show ?thesis
    by blast
qed

theorem shutdown_checkpoints_witness:
  "trace (main_loop ex_cfg [ex_sleep_env [False, True], ex_iter (Inr (Some []))] ex_state)
     = [LogChecked, Sleep 1, Sleep 1,
        PrintStopping, LogShutdownRequested, LogStopped, PrintStopped]
   \<and> trace (main_loop ex_cfg
        [ex_iter (Inr (Some [(ex_msg ''ann@example.org'' (Inr ''Hi'') (Inr ()))
                                \<lparr>m_signals := [DuringSend]\<rparr>])),
         ex_iter (Inr (Some []))] ex_state)
     = [LogChecked, PrintStopping, LogShutdownRequested,
        Sent (reply_message ''ann@example.org'' ''Automated Reply'' ''Hi'' default_character),
        WroteHeader,
        WroteRow [''ann@example.org'', ''2024-01-01T00:00:00+00:00'', ''Default'', ''No''],
        LogReplied ''ann@example.org'' (Some ''Default'') False,
        PrintReplied ''ann@example.org'' (Some ''Default'') False,
        LogStopped, PrintStopped]"
proof -
  let ?e1 = "ex_sleep_env [False, True]"
  let ?next = "[ex_iter (Inr (Some []))]"
  let ?s1 = "emit LogChecked ex_state"
  have running: "\<not> shutdown_requested ex_state"
    by (simp add: ex_state_def)
  have a1: "get_unread_messages (i_results ?e1) (deliver (i_sig_poll ?e1) ex_state) = (Inr [], ?s1)"
    by (simp add: ex_sleep_env_def get_unread_messages_def deliver_def)
  have a2: "process_messages ex_cfg [] ?s1 = (None, ?s1)"
    by simp
  have a3: "\<not> shutdown_requested ?s1 \<and> 1 < nat (check_interval ex_cfg)
      \<and> 1 < length (i_ticks ?e1) \<and> i_ticks ?e1 ! 1 \<and> (\<forall>j<1. \<not> i_ticks ?e1 ! j)"
    by (simp add: ex_sleep_env_def ex_cfg_def ex_state_def emit_fields)
  have a4: "trace ?s1 = [LogChecked]"
    by (simp add: ex_state_def emit_def)
  note t1 = shutdown_checkpoints [of ?e1 ex_state "[]" ?s1 ex_cfg ?s1 1 ?next]
  from t1 a1 a2 a3
  have "trace (main_loop ex_cfg ?next (iteration ex_cfg ?e1 ex_state))
          = trace ?s1 @ replicate (Suc 1) (Sleep 1)
              @ [PrintStopping, LogShutdownRequested, LogStopped, PrintStopped]"
    by blast
  moreover from t1 running
  have "main_loop ex_cfg (?e1 # ?next) ex_state
      = main_loop ex_cfg ?next (iteration ex_cfg ?e1 ex_state)"
    by blast
  ultimately have "trace (main_loop ex_cfg (?e1 # ?next) ex_state)
          = trace ?s1 @ replicate (Suc 1) (Sleep 1)
              @ [PrintStopping, LogShutdownRequested, LogStopped, PrintStopped]"
    by (simp only:)
  then have w1: "trace (main_loop ex_cfg (?e1 # ?next) ex_state)
     = [LogChecked, Sleep 1, Sleep 1,
        PrintStopping, LogShutdownRequested, LogStopped, PrintStopped]"
    by (simp only: a4) simp
  let ?m = "(ex_msg ''ann@example.org'' (Inr ''Hi'') (Inr ()))\<lparr>m_signals := [DuringSend]\<rparr>"
  let ?e2 = "ex_iter (Inr (Some [?m]))"
  have b1: "get_unread_messages (i_results ?e2) (deliver (i_sig_poll ?e2) ex_state)
      = (Inr [?m], ?s1)"
    by (simp add: ex_iter_def get_unread_messages_def deliver_def)
  have b2: "fst (process_candidate ex_cfg ?m ?s1) = None
      \<and> sent_mails (trace (snd (process_candidate ex_cfg ?m ?s1))) \<noteq> sent_mails (trace ?s1)"
    by code_simp
  have b3: "m_signals ?m \<noteq> []"
    by simp
  note t2 = shutdown_checkpoints [where env = ?e2 and s = ex_state and ms = "[?m]"
      and ?s1.0 = ?s1 and cfg = ex_cfg and envs = ?next and m = ?m and t = ?s1]
  from t2 b2 b3
  have b4: "shutdown_requested (snd (process_candidate ex_cfg ?m ?s1))"
    by blast
  have b5: "snd (process_messages ex_cfg [?m] ?s1) = snd (process_candidate ex_cfg ?m ?s1)"
    by (cases "process_candidate ex_cfg ?m ?s1") (auto split: option.splits)
  from b4 b5 have b4': "shutdown_requested (snd (process_messages ex_cfg [?m] ?s1))"
    by simp
  from t2 b1 b4'
  have "main_loop ex_cfg ?next (iteration ex_cfg ?e2 ex_state)
      = stopped (iteration ex_cfg ?e2 ex_state)"
    by blast
  moreover from t2 running
  have "main_loop ex_cfg (?e2 # ?next) ex_state
      = main_loop ex_cfg ?next (iteration ex_cfg ?e2 ex_state)"
    by blast
  ultimately have "main_loop ex_cfg (?e2 # ?next) ex_state = stopped (iteration ex_cfg ?e2 ex_state)"
    by (simp only:)
  then have b6: "trace (main_loop ex_cfg (?e2 # ?next) ex_state)
      = trace (iteration ex_cfg ?e2 ex_state) @ [LogStopped, PrintStopped]"
    by (simp only: trace_stopped)
  have b7: "trace (iteration ex_cfg ?e2 ex_state)
     = [LogChecked, PrintStopping, LogShutdownRequested,
        Sent (reply_message ''ann@example.org'' ''Automated Reply'' ''Hi'' default_character),
        WroteHeader,
        WroteRow [''ann@example.org'', ''2024-01-01T00:00:00+00:00'', ''Default'', ''No''],
        LogReplied ''ann@example.org'' (Some ''Default'') False,
        PrintReplied ''ann@example.org'' (Some ''Default'') False]"
    by code_simp
  from w1 b6 b7 show ?thesis
    by simp
qed

section \<open>Reply once\<close>










subsection \<open>Within one process\<close>





subsection \<open>From one process to the next\<close>












text \<open>
  Claim C7. Starting from an absent ledger file, after any sequence of record
  operations the reloaded membership set is exactly the set of the recorded senders:
  every recorded sender is a member and nothing else is. An absent file reloads as the
  empty set.
\<close>

theorem ledger_roundtrip:
  "load_replied_senders None = {} \<and>
   load_replied_senders (record_all recs None) = set (map fst recs)"
proof -
  have r: "ledger_ready None" by (simp add: ledger_ready_def)
  show ?thesis
    using load_record_all [OF r, of recs] by (simp add: load_replied_senders_def)
qed

end
